theory Spec2Isabelle
  imports Complex_Main
begin

section \<open>JavaScript values\<close>

text \<open>
  A JavaScript string is a sequence of UTF-16 code units; \<open>lit\<close> embeds an ASCII
  literal of the source. The ellipsis of \<open>truncateText\<close> is the single code unit
  U+2026.
\<close>

type_synonym jsstring = "nat list"

definition lit :: "string \<Rightarrow> jsstring" where
  "lit s = map of_char s"

definition ellipsis :: jsstring where
  "ellipsis = [8230]"

text \<open>
  A JavaScript number is a finite value or \<open>NaN\<close>. In the geometry of the chart
  finite doubles are read as exact reals: rounding and overflow are outside that
  part of the model, and so are the infinities. The tooltip prints a figure that
  depends on the rounding, so its arithmetic is modelled in double precision (see
  the section on the tooltip). An optional numeric field that was never assigned
  is \<open>NaN\<close>, which is what every arithmetic read of \<open>undefined\<close> yields.
\<close>

datatype jsnum = Num real | NaN

fun js_add :: "jsnum \<Rightarrow> jsnum \<Rightarrow> jsnum" where
  "js_add (Num a) (Num b) = Num (a + b)"
| "js_add _ _ = NaN"

fun js_sub :: "jsnum \<Rightarrow> jsnum \<Rightarrow> jsnum" where
  "js_sub (Num a) (Num b) = Num (a - b)"
| "js_sub _ _ = NaN"

fun js_mul :: "jsnum \<Rightarrow> jsnum \<Rightarrow> jsnum" where
  "js_mul (Num a) (Num b) = Num (a * b)"
| "js_mul _ _ = NaN"

text \<open>
  The divisors of the program are the literal 2, \<open>Math.max(1, _)\<close>, a domain width
  that was tested for truthiness, and in \<open>barSizeRatio\<close> three times the dividend.
  A divisor that is zero therefore has the dividend zero, and \<open>0 / 0\<close> is \<open>NaN\<close>;
  the quotient of a non-zero number by zero, an infinity in JavaScript, is never
  computed.
\<close>

fun js_div :: "jsnum \<Rightarrow> jsnum \<Rightarrow> jsnum" where
  "js_div (Num a) (Num b) = (if b = 0 then NaN else Num (a / b))"
| "js_div _ _ = NaN"

fun js_neg :: "jsnum \<Rightarrow> jsnum" where
  "js_neg (Num a) = Num (- a)"
| "js_neg NaN = NaN"

fun js_lt :: "jsnum \<Rightarrow> jsnum \<Rightarrow> bool" where
  "js_lt (Num a) (Num b) = (a < b)"
| "js_lt _ _ = False"

fun js_gt :: "jsnum \<Rightarrow> jsnum \<Rightarrow> bool" where
  "js_gt (Num a) (Num b) = (a > b)"
| "js_gt _ _ = False"

fun truthy :: "jsnum \<Rightarrow> bool" where
  "truthy (Num a) = (a \<noteq> 0)"
| "truthy NaN = False"

fun Math_max :: "jsnum \<Rightarrow> jsnum \<Rightarrow> jsnum" where
  "Math_max (Num a) (Num b) = Num (max a b)"
| "Math_max _ _ = NaN"

text \<open>\<open>ToNumber\<close> of a value that may be \<open>undefined\<close>.\<close>

fun toNumber :: "real option \<Rightarrow> jsnum" where
  "toNumber None = NaN"
| "toNumber (Some a) = Num a"

text \<open>The decimal digits of a natural number, as code units.\<close>

function digits :: "nat \<Rightarrow> jsstring" where
  "digits n = (if n < 10 then [48 + n] else digits (n div 10) @ [48 + n mod 10])"
  by pat_completeness auto
termination
  by (relation "measure id") auto

declare digits.simps [simp del]

section \<open>Rows and chart data\<close>

record DoubleBarRow =
  name :: jsstring
  left :: real
  right :: real

record DoubleBarData =
  rows :: "DoubleBarRow list"
  leftTitle :: jsstring
  rightTitle :: jsstring

definition rowNameSelector :: "DoubleBarRow \<Rightarrow> jsstring" where
  "rowNameSelector row = name row"

definition rowLeftSelector :: "DoubleBarRow \<Rightarrow> real" where
  "rowLeftSelector row = left row"

definition rowRightSelector :: "DoubleBarRow \<Rightarrow> real" where
  "rowRightSelector row = right row"

definition sequence :: "nat \<Rightarrow> nat list" where
  "sequence n = [0..<n]"

section \<open>The browser\<close>

text \<open>
  The SVG elements the chart creates. \<open>classes\<close> is the \<open>class\<close> attribute split at
  spaces, \<open>datum\<close> the row that d3 has bound to the element, \<open>listeners\<close> the event
  names with a handler.
\<close>

datatype attrval = AStr string | ANum jsnum | ATranslate jsnum "jsnum option"

record element =
  tagName :: string
  classes :: "string list"
  attrs :: "string \<rightharpoonup> attrval"
  textContent :: jsstring
  datum :: "DoubleBarRow option"
  listeners :: "string list"

text \<open>
  What the program takes from the browser and from the language: the conversion
  of a number to its text and the rendered length of a text element, which
  depends on the element (its content and its font attributes).
\<close>

record Browser =
  numberToString :: "real \<Rightarrow> jsstring"
  getComputedTextLength :: "element \<Rightarrow> real"

section \<open>The tooltip\<close>












section \<open>Text truncation\<close>

text \<open>
  \<open>truncateText(width)\<close> on one text element. \<open>m\<close> is the rendered length of the
  element as a function of its content, \<open>content\<close> the text it shows on entry;
  the result is the text it shows on exit. The loop variables are \<open>text\<close> (the
  part of the original that is kept), the text shown and \<open>textLength\<close>.
\<close>

function truncateLoop ::
  "(jsstring \<Rightarrow> real) \<Rightarrow> jsnum \<Rightarrow> jsstring \<Rightarrow> jsstring \<Rightarrow> real \<Rightarrow> jsstring" where
  "truncateLoop m width text shown textLength =
     (if js_gt (Num textLength) width \<and> length text > 0
      then (let text' = butlast text;
                shown' = text' @ ellipsis
            in truncateLoop m width text' shown' (m shown'))
      else shown)"
  by pat_completeness auto
termination
  by (relation "measure (\<lambda>(m, width, text, shown, textLength). length text)") auto

declare truncateLoop.simps [simp del]

definition truncateText :: "jsnum \<Rightarrow> (jsstring \<Rightarrow> real) \<Rightarrow> jsstring \<Rightarrow> jsstring" where
  "truncateText width m content = truncateLoop m width content content (m content)"

text \<open>\<open>truncateText\<close> applied to an element of the scene.\<close>

definition truncateElement :: "Browser \<Rightarrow> jsnum \<Rightarrow> element \<Rightarrow> element" where
  "truncateElement b width el =
     el\<lparr>textContent :=
          truncateText width (\<lambda>t. getComputedTextLength b (el\<lparr>textContent := t\<rparr>))
            (textContent el)\<rparr>"

section \<open>Scales\<close>

text \<open>
  The scales and \<open>extent\<close> belong to d3-scale and d3-array, dependencies that are
  not part of the sources. Every definition of this section is modelled from the
  description of the scales: numbers are \<open>jsnum\<close>, so that a \<open>NaN\<close> in a domain or a
  range goes through the arithmetic as it does in JavaScript.
\<close>

text \<open>
  Modelled from the spec: \<open>extent\<close> of d3-array, which is not part of the sources.
  It returns the minimum and the maximum of the selected values, and
  \<open>[undefined, undefined]\<close> (here \<open>None\<close>) when there is no value. The first value
  initialises both bounds and every later value is compared with them.
\<close>

fun extent :: "'a list \<Rightarrow> ('a \<Rightarrow> real) \<Rightarrow> (real \<times> real) option" where
  "extent [] valueof = None"
| "extent (v # vs) valueof =
     Some (foldl (\<lambda>(mn, mx) x.
                    (if mn > valueof x then valueof x else mn,
                     if mx < valueof x then valueof x else mx))
                 (valueof v, valueof v) vs)"

text \<open>
  Modelled from the spec: the linear scale of d3-scale, which is not part of the
  sources; it has a domain and a range of two numbers each.
\<close>

record ScaleLinear =
  lin_domain :: "jsnum \<times> jsnum"
  lin_range :: "jsnum \<times> jsnum"

text \<open>
  Modelled from the spec: \<open>scaleLinear()\<close> of d3-scale, a new scale with domain and
  range \<open>[0, 1]\<close>.
\<close>

definition scaleLinear :: ScaleLinear where
  "scaleLinear = \<lparr>lin_domain = (Num 0, Num 1), lin_range = (Num 0, Num 1)\<rparr>"

text \<open>
  Modelled from the spec: the position of \<open>x\<close> in the domain \<open>[a, b]\<close> of a linear
  scale of d3-scale, as a fraction. When the width \<open>b - a\<close> of the domain is 0 or
  \<open>NaN\<close>, the position is that width whatever \<open>x\<close> is, so that a collapsed domain
  is mapped to the start of the range.
\<close>

definition deinterpolateLinear :: "jsnum \<Rightarrow> jsnum \<Rightarrow> jsnum \<Rightarrow> jsnum" where
  "deinterpolateLinear a b x =
     (let b' = js_sub b a
      in if truthy b' then js_div (js_sub x a) b' else b')"

text \<open>
  Modelled from the spec: the point of the range \<open>[a, b]\<close> of a linear scale of
  d3-scale at the fraction \<open>t\<close>.
\<close>

definition interpolateNumber :: "jsnum \<Rightarrow> jsnum \<Rightarrow> jsnum \<Rightarrow> jsnum" where
  "interpolateNumber a b t = js_add a (js_mul (js_sub b a) t)"

text \<open>
  Modelled from the spec: the call \<open>scale(x)\<close> of a linear scale of d3-scale. The
  domain is mapped linearly onto the range, from its smaller end.
\<close>

definition linear_apply :: "ScaleLinear \<Rightarrow> jsnum \<Rightarrow> jsnum" where
  "linear_apply sc x =
     (let (d0, d1) = lin_domain sc; (r0, r1) = lin_range sc
      in if js_lt d1 d0
         then interpolateNumber r1 r0 (deinterpolateLinear d1 d0 x)
         else interpolateNumber r0 r1 (deinterpolateLinear d0 d1 x))"

text \<open>
  Modelled from the spec: the band scale of d3-scale, which is not part of the
  sources. The range is divided into one step per domain value; of each step the
  share \<open>paddingInner\<close> is padding and the rest is the band, and \<open>paddingOuter\<close>
  steps of padding stand before the first and after the last band.
\<close>

record ScaleBand =
  band_domain :: "nat list"
  band_range :: "jsnum \<times> jsnum"
  band_paddingInner :: real
  band_paddingOuter :: real
  band_align :: real

text \<open>
  Modelled from the spec: \<open>scaleBand()\<close> of d3-scale, a new scale with an empty
  domain, the range \<open>[0, 1]\<close>, no padding and the alignment 0.5.
\<close>

definition scaleBand :: ScaleBand where
  "scaleBand = \<lparr>band_domain = [], band_range = (Num 0, Num 1),
                 band_paddingInner = 0, band_paddingOuter = 0, band_align = 1 / 2\<rparr>"

text \<open>
  Modelled from the spec: the setters \<open>align\<close>, \<open>paddingInner\<close> and \<open>paddingOuter\<close>
  of a band scale of d3-scale, which clamp their argument to \<open>[0, 1]\<close>.
\<close>

definition align :: "real \<Rightarrow> ScaleBand \<Rightarrow> ScaleBand" where
  "align a sc = sc\<lparr>band_align := max 0 (min 1 a)\<rparr>"

definition paddingInner :: "real \<Rightarrow> ScaleBand \<Rightarrow> ScaleBand" where
  "paddingInner p sc = sc\<lparr>band_paddingInner := max 0 (min 1 p)\<rparr>"

definition paddingOuter :: "real \<Rightarrow> ScaleBand \<Rightarrow> ScaleBand" where
  "paddingOuter p sc = sc\<lparr>band_paddingOuter := max 0 (min 1 p)\<rparr>"

text \<open>
  Modelled from the spec: the ends of the range of a band scale of d3-scale in
  increasing order; \<open>band_reverse\<close> tells that the range was given from its larger
  end.
\<close>

definition band_reverse :: "ScaleBand \<Rightarrow> bool" where
  "band_reverse sc = js_lt (snd (band_range sc)) (fst (band_range sc))"

definition band_start :: "ScaleBand \<Rightarrow> jsnum" where
  "band_start sc = (if band_reverse sc then snd (band_range sc) else fst (band_range sc))"

definition band_stop :: "ScaleBand \<Rightarrow> jsnum" where
  "band_stop sc = (if band_reverse sc then fst (band_range sc) else snd (band_range sc))"

text \<open>
  Modelled from the spec: \<open>step()\<close> of a band scale of d3-scale, the distance
  between the starts of two neighbouring bands: the extent of the range divided by
  the number of steps, which is at least 1.
\<close>

definition step :: "ScaleBand \<Rightarrow> jsnum" where
  "step sc =
     js_div (js_sub (band_stop sc) (band_start sc))
       (Math_max (Num 1)
          (Num (real (length (band_domain sc)) - band_paddingInner sc
                + band_paddingOuter sc * 2)))"

text \<open>
  Modelled from the spec: \<open>bandwidth()\<close> of a band scale of d3-scale, the part of a
  step that is not padding.
\<close>

definition bandwidth :: "ScaleBand \<Rightarrow> jsnum" where
  "bandwidth sc = js_mul (step sc) (Num (1 - band_paddingInner sc))"

text \<open>
  Modelled from the spec: the starts of the bands of a band scale of d3-scale, one
  per domain value; the space that the bands leave is shared out by the
  alignment.
\<close>

definition band_values :: "ScaleBand \<Rightarrow> jsnum list" where
  "band_values sc =
     (let n = length (band_domain sc);
          start = js_add (band_start sc)
                    (js_mul (js_sub (js_sub (band_stop sc) (band_start sc))
                               (js_mul (step sc) (Num (real n - band_paddingInner sc))))
                            (Num (band_align sc)));
          values = map (\<lambda>i. js_add start (js_mul (step sc) (Num (real i)))) [0..<n]
      in if band_reverse sc then rev values else values)"

text \<open>The position of the first occurrence of a value in a list.\<close>

fun indexOf :: "'a \<Rightarrow> 'a list \<Rightarrow> nat option" where
  "indexOf x [] = None"
| "indexOf x (y # ys) = (if x = y then Some 0 else map_option Suc (indexOf x ys))"

text \<open>
  Modelled from the spec: the call \<open>scale(d)\<close> of a band scale of d3-scale, the
  start of the band of \<open>d\<close>; a value outside the domain has no position
  (\<open>undefined\<close>, here \<open>None\<close>).
\<close>

definition band_apply :: "ScaleBand \<Rightarrow> nat \<Rightarrow> jsnum option" where
  "band_apply sc d =
     (case indexOf d (band_domain sc) of
        None \<Rightarrow> None
      | Some i \<Rightarrow> Some (band_values sc ! i))"

section \<open>Errors\<close>

text \<open>
  \<open>TypeError\<close> is the exception of reading a property of \<open>undefined\<close>.
  \<open>OutsideModel\<close> is not an exception of the program: it marks data whose cell
  values are not of the types that the cast \<open>as DoubleBarRow\<close> declares (a text for
  the name, numbers for the two measures), on which the model says nothing.
\<close>

datatype error = TypeError | OutsideModel

fun mapE :: "('a \<Rightarrow> error + 'b) \<Rightarrow> 'a list \<Rightarrow> error + 'b list" where
  "mapE f [] = Inr []"
| "mapE f (x # xs) =
     (case f x of
        Inl e \<Rightarrow> Inl e
      | Inr y \<Rightarrow> (case mapE f xs of Inl e \<Rightarrow> Inl e | Inr ys \<Rightarrow> Inr (y # ys)))"

definition andThen :: "error + 'a \<Rightarrow> ('a \<Rightarrow> error + 'b) \<Rightarrow> error + 'b" where
  "andThen r f = (case r of Inl e \<Rightarrow> Inl e | Inr x \<Rightarrow> f x)"

text \<open>A chain of method calls \<open>x.f1(..).f2(..)\<close>, applied from left to right.\<close>

definition chain :: "'a \<Rightarrow> ('a \<Rightarrow> 'a) list \<Rightarrow> 'a" where
  "chain x fs = foldl (\<lambda>a f. f a) x fs"

definition chainE :: "'a \<Rightarrow> ('a \<Rightarrow> error + 'a) list \<Rightarrow> error + 'a" where
  "chainE x fs = foldl andThen (Inr x) fs"

section \<open>The scene and its selections\<close>

text \<open>
  The scene is the \<open>svg\<close> element with its children; a child is a row group with
  the elements inside it, or an element of its own (a title). \<open>nid\<close> is the
  identity of a child of the \<open>svg\<close>, by which the selection \<open>svgRows\<close> refers to
  the row groups; it stands for the object identity of the DOM node.
\<close>

datatype node = Node (nid: nat) (props: element) (kids: "element list")

record svgroot =
  root_attrs :: "string \<rightharpoonup> attrval"
  root_kids :: "node list"

definition createElement :: "string \<Rightarrow> DoubleBarRow option \<Rightarrow> element" where
  "createElement tg d =
     \<lparr>tagName = tg, classes = [], attrs = Map.empty, textContent = [],
      datum = d, listeners = []\<rparr>"

definition attr :: "string \<Rightarrow> attrval \<Rightarrow> element \<Rightarrow> element" where
  "attr k v e = e\<lparr>attrs := (attrs e)(k \<mapsto> v)\<rparr>"

definition setClass :: "string list \<Rightarrow> element \<Rightarrow> element" where
  "setClass cs e = e\<lparr>classes := cs\<rparr>"

definition setText :: "jsstring \<Rightarrow> element \<Rightarrow> element" where
  "setText t e = e\<lparr>textContent := t\<rparr>"

definition on :: "string \<Rightarrow> element \<Rightarrow> element" where
  "on ev e = e\<lparr>listeners := listeners e @ [ev]\<rparr>"

text \<open>A selector \<open>tag.class\<close>.\<close>

definition matches :: "string \<Rightarrow> string \<Rightarrow> element \<Rightarrow> bool" where
  "matches tg cls e = (tagName e = tg \<and> cls \<in> set (classes e))"

text \<open>The descendants of the \<open>svg\<close> in document order.\<close>

fun descendants :: "node list \<Rightarrow> element list" where
  "descendants [] = []"
| "descendants (n # ns) = props n # kids n @ descendants ns"

text \<open>
  \<open>svg.selectAll(selector).data(values)\<close>: the values are bound by index to the
  matching descendants, in document order; the values that are left over make the
  \<open>enter()\<close> selection, the second component of the result.
\<close>

definition bindOne ::
  "(element \<Rightarrow> bool) \<Rightarrow> DoubleBarRow list \<Rightarrow> element \<Rightarrow> element \<times> DoubleBarRow list" where
  "bindOne p vs e =
     (if p e then (case vs of [] \<Rightarrow> (e, []) | v # vs' \<Rightarrow> (e\<lparr>datum := Some v\<rparr>, vs'))
      else (e, vs))"

fun bindKids ::
  "(element \<Rightarrow> bool) \<Rightarrow> DoubleBarRow list \<Rightarrow> element list
     \<Rightarrow> element list \<times> DoubleBarRow list" where
  "bindKids p vs [] = ([], vs)"
| "bindKids p vs (e # es) =
     (let (e', vs1) = bindOne p vs e;
          (es', vs2) = bindKids p vs1 es
      in (e' # es', vs2))"

fun bindNodes ::
  "(element \<Rightarrow> bool) \<Rightarrow> DoubleBarRow list \<Rightarrow> node list
     \<Rightarrow> node list \<times> DoubleBarRow list" where
  "bindNodes p vs [] = ([], vs)"
| "bindNodes p vs (n # ns) =
     (let (e', vs1) = bindOne p vs (props n);
          (ks', vs2) = bindKids p vs1 (kids n);
          (ns', vs3) = bindNodes p vs2 ns
      in (Node (nid n) e' ks' # ns', vs3))"

text \<open>
  \<open>enter().append(tag)\<close> under the \<open>svg\<close>: one new child per entering value, with
  the value as its datum, after the children that exist.
\<close>

definition enterAppend :: "nat \<Rightarrow> (DoubleBarRow \<Rightarrow> element) \<Rightarrow> DoubleBarRow list \<Rightarrow> node list" where
  "enterAppend k mk vs = map (\<lambda>(i, v). Node i (mk v) []) (enumerate k vs)"

text \<open>
  The operations on the selection \<open>svgRows\<close>, a list of identities: \<open>remove()\<close>, a
  call on every selected child with its index in the selection, \<open>append\<close> (the new
  element gets the datum of its parent) and \<open>selectAll(selector)\<close> inside every
  selected child. A callback that reads a property of its datum throws when the
  element has none.
\<close>

definition removeRows :: "nat list \<Rightarrow> node list \<Rightarrow> node list" where
  "removeRows ids ns = filter (\<lambda>n. nid n \<notin> set ids) ns"

definition onRows :: "nat list \<Rightarrow> (nat \<Rightarrow> node \<Rightarrow> error + node) \<Rightarrow> node list \<Rightarrow> error + node list" where
  "onRows ids f ns =
     mapE (\<lambda>n. case indexOf (nid n) ids of None \<Rightarrow> Inr n | Some i \<Rightarrow> f i n) ns"

definition onProps :: "(element \<Rightarrow> element) \<Rightarrow> node \<Rightarrow> error + node" where
  "onProps f n = Inr (Node (nid n) (f (props n)) (kids n))"

definition appendChild :: "(DoubleBarRow option \<Rightarrow> error + element) \<Rightarrow> node \<Rightarrow> error + node" where
  "appendChild mk n =
     (case mk (datum (props n)) of
        Inl e \<Rightarrow> Inl e
      | Inr c \<Rightarrow> Inr (Node (nid n) (props n) (kids n @ [c])))"

definition onKids :: "(element \<Rightarrow> bool) \<Rightarrow> (element \<Rightarrow> error + element) \<Rightarrow> node \<Rightarrow> error + node" where
  "onKids p f n =
     (case mapE (\<lambda>c. if p c then f c else Inr c) (kids n) of
        Inl e \<Rightarrow> Inl e
      | Inr cs \<Rightarrow> Inr (Node (nid n) (props n) cs))"

definition withDatum :: "(DoubleBarRow \<Rightarrow> element \<Rightarrow> element) \<Rightarrow> element \<Rightarrow> error + element" where
  "withDatum f e = (case datum e of None \<Rightarrow> Inl TypeError | Some d \<Rightarrow> Inr (f d e))"

text \<open>
  \<open>svg.select(selector)\<close> followed by calls on the selected element: the first
  matching descendant in document order is changed, and nothing when there is none.
\<close>

fun updFirst :: "('a \<Rightarrow> bool) \<Rightarrow> ('a \<Rightarrow> 'a) \<Rightarrow> 'a list \<Rightarrow> 'a list option" where
  "updFirst p f [] = None"
| "updFirst p f (x # xs) =
     (if p x then Some (f x # xs) else map_option ((#) x) (updFirst p f xs))"

fun selectUpdate :: "(element \<Rightarrow> bool) \<Rightarrow> (element \<Rightarrow> element) \<Rightarrow> node list \<Rightarrow> node list" where
  "selectUpdate p f [] = []"
| "selectUpdate p f (n # ns) =
     (if p (props n) then Node (nid n) (f (props n)) (kids n) # ns
      else case updFirst p f (kids n) of
             Some ks' \<Rightarrow> Node (nid n) (props n) ks' # ns
           | None \<Rightarrow> n # selectUpdate p f ns)"

section \<open>The visualization object\<close>

record Tooltip =
  tip_class :: string
  tip_offset :: "jsnum \<times> jsnum"

text \<open>
  The fields of \<open>vis\<close> that change. \<open>svgRows\<close> is \<open>None\<close> while the field is
  \<open>undefined\<close>; \<open>nextId\<close> is the next unused identity of a child of the \<open>svg\<close>.
\<close>

record DoubleBar =
  svg :: "svgroot option"
  tooltip :: "Tooltip option"
  svgRows :: "nat list option"
  width :: jsnum
  height :: jsnum
  rowYPosition :: ScaleBand
  leftBarWidth :: ScaleLinear
  rightBarWidth :: ScaleLinear
  maxBarLabelWidth :: jsnum
  nextId :: nat

definition leftColor_default :: string where
  "leftColor_default = ''#FEC500''"

definition rightColor_default :: string where
  "rightColor_default = ''#42B3D5''"

definition vis :: DoubleBar where
  "vis = \<lparr>svg = None, tooltip = None, svgRows = None, width = NaN, height = NaN,
          rowYPosition = align 0 scaleBand, leftBarWidth = scaleLinear,
          rightBarWidth = scaleLinear, maxBarLabelWidth = NaN, nextId = 0\<rparr>"

subsection \<open>The getters\<close>

definition graphWidth :: "DoubleBar \<Rightarrow> jsnum" where
  "graphWidth this = js_mul (width this) (Num (65 / 100))"

definition legendWidth :: "DoubleBar \<Rightarrow> jsnum" where
  "legendWidth this = js_sub (width this) (js_add (graphWidth this) (Num 10))"

definition legendTextWidth :: "DoubleBar \<Rightarrow> jsnum" where
  "legendTextWidth this = js_sub (legendWidth this) (Num 8)"

definition halfGraphWidth :: "DoubleBar \<Rightarrow> jsnum" where
  "halfGraphWidth this = js_div (graphWidth this) (Num 2)"

definition halfGraphBarMaxWidth :: "DoubleBar \<Rightarrow> jsnum" where
  "halfGraphBarMaxWidth this =
     js_sub (halfGraphWidth this) (js_add (maxBarLabelWidth this) (Num 10))"

definition titleTextWidth :: "DoubleBar \<Rightarrow> jsnum" where
  "titleTextWidth this = js_sub (halfGraphWidth this) (Num 10)"

definition rowHeight :: "DoubleBar \<Rightarrow> jsnum" where
  "rowHeight this = step (rowYPosition this)"

definition barHeight :: "DoubleBar \<Rightarrow> jsnum" where
  "barHeight this = bandwidth (rowYPosition this)"

definition barSizeRatio :: "DoubleBar \<Rightarrow> jsnum" where
  "barSizeRatio this = js_div (rowHeight this) (js_mul (rowHeight this) (Num 3))"

definition rowHighlightThickness :: "DoubleBar \<Rightarrow> jsnum" where
  "rowHighlightThickness this = rowHeight this"

definition barMargin :: "DoubleBar \<Rightarrow> jsnum" where
  "barMargin this = js_div (js_sub (rowHeight this) (barHeight this)) (Num 2)"

definition barOriginX :: "DoubleBar \<Rightarrow> jsnum" where
  "barOriginX this = js_sub (width this) (halfGraphWidth this)"

section \<open>The host\<close>

record Field =
  field_name :: jsstring
  field_label :: jsstring

record QueryFields =
  dimensions :: "Field list"
  measures :: "Field list"

record VisConfig =
  query_fields :: QueryFields
  leftColor :: "string option"
  rightColor :: "string option"

record VisQueryResponse =
  qr_pivots :: "Field list"
  qr_dimensions :: "Field list"
  qr_measure_like :: "Field list"

datatype Cell = TextCell jsstring | NumberCell real

type_synonym VisData = "(jsstring \<rightharpoonup> Cell) list"

record HTMLElement =
  clientWidth :: nat
  clientHeight :: nat

record VisOptions =
  min_pivots :: nat
  max_pivots :: nat
  min_dimensions :: nat
  max_dimensions :: nat
  min_measures :: nat
  max_measures :: nat

text \<open>
  Modelled from the spec: \<open>handleErrors\<close> of \<open>common/utils\<close> is not part of the
  sources. It is a pure function of the query metadata that returns whether the
  numbers of pivots, dimensions and measures are within the required bounds
  (reporting a mismatch to the host is its own business).
\<close>

definition handleErrors :: "VisQueryResponse \<Rightarrow> VisOptions \<Rightarrow> bool" where
  "handleErrors res options =
     (min_pivots options \<le> length (qr_pivots res)
      \<and> length (qr_pivots res) \<le> max_pivots options
      \<and> min_dimensions options \<le> length (qr_dimensions res)
      \<and> length (qr_dimensions res) \<le> max_dimensions options
      \<and> min_measures options \<le> length (qr_measure_like res)
      \<and> length (qr_measure_like res) \<le> max_measures options)"

definition validateInputs :: "VisQueryResponse \<Rightarrow> bool" where
  "validateInputs queryResponse =
     handleErrors queryResponse
       \<lparr>min_pivots = 0, max_pivots = 0, min_dimensions = 1, max_dimensions = 1,
        min_measures = 2, max_measures = 2\<rparr>"

section \<open>The update cycle\<close>

fun nth_opt :: "'a list \<Rightarrow> nat \<Rightarrow> 'a option" where
  "nth_opt [] i = None"
| "nth_opt (x # xs) 0 = Some x"
| "nth_opt (x # xs) (Suc i) = nth_opt xs i"

definition chartRow :: "jsstring \<Rightarrow> jsstring \<Rightarrow> jsstring \<Rightarrow> (jsstring \<rightharpoonup> Cell) \<Rightarrow> error + DoubleBarRow" where
  "chartRow dimensionName leftMeasureName rightMeasureName row =
     (case (row dimensionName, row leftMeasureName, row rightMeasureName) of
        (Some n, Some l, Some r) \<Rightarrow>
          (case (n, l, r) of
             (TextCell nm, NumberCell lv, NumberCell rv) \<Rightarrow>
               Inr \<lparr>name = nm, left = lv, right = rv\<rparr>
           | _ \<Rightarrow> Inl OutsideModel)
      | _ \<Rightarrow> Inl TypeError)"

definition createChartData :: "VisData \<Rightarrow> VisConfig \<Rightarrow> error + DoubleBarData" where
  "createChartData data config =
     (case (nth_opt (dimensions (query_fields config)) 0,
            nth_opt (measures (query_fields config)) 0,
            nth_opt (measures (query_fields config)) 1) of
        (Some dimension, Some leftMeasure, Some rightMeasure) \<Rightarrow>
          andThen
            (mapE (chartRow (field_name dimension) (field_name leftMeasure)
                     (field_name rightMeasure)) data)
            (\<lambda>rs. Inr \<lparr>rows = rs, leftTitle = field_label leftMeasure,
                        rightTitle = field_label rightMeasure\<rparr>)
      | _ \<Rightarrow> Inl TypeError)"

definition create :: "DoubleBar \<Rightarrow> DoubleBar" where
  "create this = this\<lparr>svg := Some \<lparr>root_attrs = Map.empty, root_kids = []\<rparr>\<rparr>"

text \<open>The upper end of the domain of both value scales.\<close>

definition maxOfBoth :: "DoubleBarRow list \<Rightarrow> jsnum" where
  "maxOfBoth rs =
     Math_max (toNumber (map_option snd (extent rs rowLeftSelector)))
              (toNumber (map_option snd (extent rs rowRightSelector)))"

definition setupInputs :: "DoubleBar \<Rightarrow> DoubleBarData \<Rightarrow> DoubleBar" where
  "setupInputs this doubleBarData =
     this\<lparr>tooltip := Some \<lparr>tip_class = ''d3-tooltip'', tip_offset = (Num 0, Num 0)\<rparr>,
          leftBarWidth := (leftBarWidth this)
             \<lparr>lin_domain := (Num 0, maxOfBoth (rows doubleBarData))\<rparr>,
          rightBarWidth := (rightBarWidth this)
             \<lparr>lin_domain := (Num 0, maxOfBoth (rows doubleBarData))\<rparr>,
          rowYPosition :=
             (let s1 = paddingInner (7 / 10) (rowYPosition this);
                  s2 = paddingOuter (band_paddingInner s1 / 2) s1
              in s2\<lparr>band_domain := sequence (length (rows doubleBarData))\<rparr>)\<rparr>"

text \<open>
  The provisional text elements of \<open>determineMaxBarValueWidth\<close> are appended to the
  \<open>svg\<close>, measured and removed again in one chain, so that no child is added.
\<close>

definition dummyText :: "string \<Rightarrow> jsstring \<Rightarrow> DoubleBarRow \<Rightarrow> element" where
  "dummyText cls t d =
     chain (createElement ''text'' (Some d))
       [setClass [cls], attr ''font-family'' (AStr ''sans-serif''),
        attr ''font-size'' (ANum (Num 12)), setText t]"

definition maxTextLength :: "Browser \<Rightarrow> jsnum \<Rightarrow> element list \<Rightarrow> jsnum" where
  "maxTextLength b w es = foldl (\<lambda>a e. Math_max a (Num (getComputedTextLength b e))) w es"

text \<open>The width that \<open>determineMaxBarValueWidth\<close> finds when every row enters.\<close>

definition maxBarValueWidth :: "Browser \<Rightarrow> DoubleBarRow list \<Rightarrow> jsnum" where
  "maxBarValueWidth b rowData =
     maxTextLength b
       (maxTextLength b (Num 0)
          (map (\<lambda>d. dummyText ''dummy-left'' (numberToString b (rowLeftSelector d)) d) rowData))
       (map (\<lambda>d. dummyText ''dummy-right'' (numberToString b (rowRightSelector d)) d) rowData)"

definition determineMaxBarValueWidth ::
  "Browser \<Rightarrow> DoubleBar \<Rightarrow> DoubleBarRow list \<Rightarrow> error + DoubleBar" where
  "determineMaxBarValueWidth b this rowData =
     (case svg this of
        None \<Rightarrow> Inl TypeError
      | Some v \<Rightarrow>
          (let (ns1, enterLeft) = bindNodes (matches ''text'' ''dummy-left'') rowData (root_kids v);
               w1 = maxTextLength b (Num 0)
                      (map (\<lambda>d. dummyText ''dummy-left'' (numberToString b (rowLeftSelector d)) d)
                         enterLeft);
               (ns2, enterRight) = bindNodes (matches ''text'' ''dummy-right'') rowData ns1;
               w2 = maxTextLength b w1
                      (map (\<lambda>d. dummyText ''dummy-right'' (numberToString b (rowRightSelector d)) d)
                         enterRight)
           in Inr (this\<lparr>maxBarLabelWidth := w2, svg := Some (v\<lparr>root_kids := ns2\<rparr>)\<rparr>)))"

definition barColor :: "string option \<Rightarrow> string \<Rightarrow> string" where
  "barColor c dflt = (case c of None \<Rightarrow> dflt | Some x \<Rightarrow> if x = [] then dflt else x)"

definition rowGroup :: "DoubleBarRow \<Rightarrow> element" where
  "rowGroup d =
     chain (createElement ''g'' (Some d))
       [setClass [''chart-row''], attr ''fill'' (AStr ''rgba(255, 255, 255, 0)'')]"

definition rowHighlight :: "DoubleBarRow option \<Rightarrow> error + element" where
  "rowHighlight d =
     Inr (chain (createElement ''rect'' d)
            [attr ''x'' (ANum (Num 0)), attr ''rx'' (ANum (Num 5)), attr ''ry'' (ANum (Num 5)),
             attr ''fill-opacity'' (ANum (Num (1 / 2))), setClass [''row-highlight'']])"

definition legendText :: "DoubleBarRow option \<Rightarrow> error + element" where
  "legendText d =
     Inr (chain (createElement ''text'' d)
            [attr ''dy'' (AStr ''.35em''), attr ''fill'' (AStr ''#000''),
             setClass [''legend-text''], attr ''font-family'' (AStr ''sans-serif''),
             attr ''font-size'' (ANum (Num 11))])"

definition leftValue :: "Browser \<Rightarrow> DoubleBarRow option \<Rightarrow> error + element" where
  "leftValue b d =
     withDatum (\<lambda>item. setText (numberToString b (rowLeftSelector item)))
       (chain (createElement ''text'' d)
          [attr ''dy'' (AStr ''.35em''), attr ''text-anchor'' (AStr ''end''),
           setClass [''left-value''], attr ''font-family'' (AStr ''sans-serif''),
           attr ''font-size'' (ANum (Num 12)), attr ''fill'' (AStr ''#888888'')])"

definition rightValue :: "Browser \<Rightarrow> DoubleBarRow option \<Rightarrow> error + element" where
  "rightValue b d =
     withDatum (\<lambda>item. setText (numberToString b (rowRightSelector item)))
       (chain (createElement ''text'' d)
          [attr ''dy'' (AStr ''.35em''), setClass [''right-value''],
           attr ''font-family'' (AStr ''sans-serif''),
           attr ''font-size'' (ANum (Num 12)), attr ''fill'' (AStr ''#888888'')])"

definition leftBar :: "VisConfig \<Rightarrow> DoubleBarRow option \<Rightarrow> error + element" where
  "leftBar config d =
     Inr (chain (createElement ''rect'' d)
            [setClass [''left-bar''],
             attr ''fill'' (AStr (barColor (leftColor config) leftColor_default))])"

definition rightBar :: "VisConfig \<Rightarrow> DoubleBarRow option \<Rightarrow> error + element" where
  "rightBar config d =
     Inr (chain (createElement ''rect'' d)
            [setClass [''right-bar''],
             attr ''fill'' (AStr (barColor (rightColor config) rightColor_default))])"

definition leftTitleText :: element where
  "leftTitleText =
     chain (createElement ''text'' None)
       [attr ''y'' (ANum (Num 0)), attr ''dy'' (AStr ''.7em''), attr ''text-anchor'' (AStr ''end''),
        attr ''font-family'' (AStr ''sans-serif''), attr ''font-size'' (ANum (Num 11)),
        attr ''fill'' (AStr ''#888888''), setClass [''left-title'', ''title'']]"

definition rightTitleText :: element where
  "rightTitleText =
     chain (createElement ''text'' None)
       [attr ''y'' (ANum (Num 0)), attr ''dy'' (AStr ''.7em''),
        attr ''font-family'' (AStr ''sans-serif''), attr ''font-size'' (ANum (Num 11)),
        attr ''fill'' (AStr ''#888888''), setClass [''right-title'', ''title'']]"

text \<open>
  The statements of \<open>setupRender\<close> on the selection \<open>svgRows\<close>, in their order:
  each is a call on every selected row group.
\<close>

definition renderSteps :: "Browser \<Rightarrow> VisConfig \<Rightarrow> (nat \<Rightarrow> node \<Rightarrow> error + node) list" where
  "renderSteps b config =
     [\<lambda>i. onProps (on ''mouseover''),
      \<lambda>i. onProps (on ''mouseout''),
      \<lambda>i. appendChild rowHighlight,
      \<lambda>i. appendChild legendText,
      \<lambda>i. appendChild (leftValue b),
      \<lambda>i. appendChild (rightValue b),
      \<lambda>i. appendChild (leftBar config),
      \<lambda>i. appendChild (rightBar config)]"

text \<open>
  \<open>svg.call(tooltip)\<close> attaches the tooltip widget, whose own node lives outside the
  \<open>svg\<close>; it throws when the field is \<open>undefined\<close>.
\<close>

definition setupRender ::
  "Browser \<Rightarrow> DoubleBar \<Rightarrow> DoubleBarData \<Rightarrow> VisConfig \<Rightarrow> error + DoubleBar" where
  "setupRender b this doubleBarData config =
     (case (svg this, tooltip this) of
        (Some v, Some tip) \<Rightarrow>
          (let ns0 = (case svgRows this of
                        None \<Rightarrow> root_kids v
                      | Some old \<Rightarrow> removeRows old (root_kids v));
               (ns1, entering) = bindNodes (matches ''g'' ''chart-row'') (rows doubleBarData) ns0;
               created = enterAppend (nextId this) rowGroup entering;
               ids = map nid created;
               k = nextId this + length created
           in andThen
                (chainE (ns1 @ created) (map (onRows ids) (renderSteps b config)))
                (\<lambda>ns2. Inr (this\<lparr>svgRows := Some ids,
                                  svg := Some (v\<lparr>root_kids :=
                                            ns2 @ [Node k leftTitleText [],
                                                   Node (Suc k) rightTitleText []]\<rparr>),
                                  nextId := Suc (Suc k)\<rparr>)))
      | _ \<Rightarrow> Inl TypeError)"

text \<open>
  The first statements of \<open>setupSizing\<close>: the offset of the tooltip and the ranges
  of the three scales.
\<close>

definition configureRanges :: "DoubleBar \<Rightarrow> Tooltip \<Rightarrow> DoubleBar" where
  "configureRanges this tip =
     this\<lparr>tooltip := Some (tip\<lparr>tip_offset :=
             (Num 0, js_add (js_div (js_neg (width this)) (Num 2)) (barOriginX this))\<rparr>),
          rowYPosition := (rowYPosition this)\<lparr>band_range := (Num 15, height this)\<rparr>,
          leftBarWidth := (leftBarWidth this)
             \<lparr>lin_range := (Num 1, halfGraphBarMaxWidth this)\<rparr>,
          rightBarWidth := (rightBarWidth this)
             \<lparr>lin_range := (Num 1, halfGraphBarMaxWidth this)\<rparr>\<rparr>"

text \<open>
  The statements of \<open>setupSizing\<close> on the selection \<open>svgRows\<close>, in their order;
  \<open>this\<close> has the new ranges, which the getters and the scales read.
\<close>

definition sizingSteps :: "Browser \<Rightarrow> DoubleBar \<Rightarrow> (nat \<Rightarrow> node \<Rightarrow> error + node) list" where
  "sizingSteps b this =
     [\<lambda>index. onProps
        (attr ''transform'' (ATranslate (Num 0) (band_apply (rowYPosition this) index))),
      \<lambda>i. onKids (matches ''rect'' ''row-highlight'')
        (\<lambda>e. Inr (chain e
           [attr ''width'' (ANum (width this)),
            attr ''height'' (ANum (rowHighlightThickness this)),
            attr ''y'' (ANum (js_div
               (js_sub (rowHeight this) (rowHighlightThickness this)) (Num 2)))])),
      \<lambda>i. onKids (matches ''text'' ''legend-text'')
        (\<lambda>e. andThen
           (withDatum (\<lambda>item. setText (rowNameSelector item))
              (chain e [attr ''x'' (ANum (Num 8)),
                        attr ''y'' (ANum (js_div (rowHeight this) (Num 2)))]))
           (\<lambda>e'. Inr (truncateElement b (legendTextWidth this) e'))),
      \<lambda>i. onKids (matches ''text'' ''left-value'')
        (\<lambda>e. andThen
           (withDatum (\<lambda>item. attr ''x'' (ANum
              (js_sub (js_sub (barOriginX this)
                 (linear_apply (leftBarWidth this) (Num (rowLeftSelector item))))
                 (Num 5)))) e)
           (\<lambda>e'. Inr (attr ''y'' (ANum (js_div (rowHeight this) (Num 2))) e'))),
      \<lambda>i. onKids (matches ''text'' ''right-value'')
        (\<lambda>e. andThen
           (withDatum (\<lambda>item. attr ''x'' (ANum
              (js_add (js_add (barOriginX this)
                 (linear_apply (rightBarWidth this) (Num (rowRightSelector item))))
                 (Num 5)))) e)
           (\<lambda>e'. Inr (attr ''y'' (ANum (js_div (rowHeight this) (Num 2))) e'))),
      \<lambda>i. onKids (matches ''rect'' ''left-bar'')
        (\<lambda>e. andThen
           (withDatum (\<lambda>item. attr ''x'' (ANum
              (js_sub (barOriginX this)
                 (linear_apply (leftBarWidth this) (Num (rowLeftSelector item)))))) e)
           (\<lambda>e1. andThen
              (withDatum (\<lambda>item. attr ''width'' (ANum
                 (linear_apply (leftBarWidth this) (Num (rowLeftSelector item)))))
                 (attr ''y'' (ANum (barMargin this)) e1))
              (\<lambda>e2. Inr (attr ''height'' (ANum (barHeight this)) e2)))),
      \<lambda>i. onKids (matches ''rect'' ''right-bar'')
        (\<lambda>e. andThen
           (withDatum (\<lambda>item. attr ''width'' (ANum
              (linear_apply (rightBarWidth this) (Num (rowRightSelector item)))))
              (chain e [attr ''x'' (ANum (barOriginX this)),
                        attr ''y'' (ANum (barMargin this))]))
           (\<lambda>e'. Inr (attr ''height'' (ANum (barHeight this)) e')))]"

text \<open>The last two statements of \<open>setupSizing\<close>, on the two titles.\<close>

definition sizeTitles :: "Browser \<Rightarrow> DoubleBar \<Rightarrow> DoubleBarData \<Rightarrow> node list \<Rightarrow> node list" where
  "sizeTitles b this doubleBarData ns =
     chain ns
       [selectUpdate (matches ''text'' ''left-title'')
          (\<lambda>e. truncateElement b (titleTextWidth this)
             (chain e [attr ''x'' (ANum (js_sub (barOriginX this) (Num 10))),
                       setText (leftTitle doubleBarData)])),
        selectUpdate (matches ''text'' ''right-title'')
          (\<lambda>e. truncateElement b (titleTextWidth this)
             (chain e [attr ''x'' (ANum (js_add (barOriginX this) (Num 10))),
                       setText (rightTitle doubleBarData)]))]"

definition setupSizing :: "Browser \<Rightarrow> DoubleBar \<Rightarrow> DoubleBarData \<Rightarrow> error + DoubleBar" where
  "setupSizing b this0 doubleBarData =
     (case (svg this0, tooltip this0, svgRows this0) of
        (Some v, Some tip, Some ids) \<Rightarrow>
          (let this = configureRanges this0 tip
           in andThen
                (chainE (root_kids v) (map (onRows ids) (sizingSteps b this)))
                (\<lambda>ns. Inr (this\<lparr>svg := Some (v\<lparr>root_kids :=
                                           sizeTitles b this doubleBarData ns\<rparr>)\<rparr>)))
      | _ \<Rightarrow> Inl TypeError)"

text \<open>
  \<open>updateAsync\<close> returns the new state of \<open>vis\<close> together with the number of times
  it has called \<open>doneRendering\<close>, or the exception it has thrown.
\<close>

definition updateAsync ::
  "Browser \<Rightarrow> DoubleBar \<Rightarrow> VisData \<Rightarrow> HTMLElement \<Rightarrow> VisConfig \<Rightarrow> VisQueryResponse
     \<Rightarrow> error + DoubleBar \<times> nat" where
  "updateAsync b this0 data el config queryResponse =
     (if \<not> validateInputs queryResponse then Inr (this0, 0)
      else
        (let this1 = this0\<lparr>width := Num (real (clientWidth el)),
                            height := Num (real (clientHeight el))\<rparr>
         in case svg this1 of
              None \<Rightarrow> Inl TypeError
            | Some v \<Rightarrow>
                (let this2 = this1\<lparr>svg := Some (v\<lparr>root_attrs :=
                        (root_attrs v)(''width'' \<mapsto> ANum (width this1),
                                      ''height'' \<mapsto> ANum (height this1))\<rparr>)\<rparr>
                 in andThen (createChartData data config) (\<lambda>chartData.
                    andThen (determineMaxBarValueWidth b (setupInputs this2 chartData)
                               (rows chartData)) (\<lambda>this4.
                    andThen (setupRender b this4 chartData config) (\<lambda>this5.
                    andThen (setupSizing b this5 chartData) (\<lambda>this6.
                    Inr (this6, 1))))))))"

section \<open>The scene after a cycle\<close>

text \<open>
  Notions in which the results are stated. \<open>rowChain\<close> is the effect of a list of
  statements on one selected row group; \<open>renderedRow\<close> is the row group that
  \<open>setupRender\<close> builds for a row, \<open>sizedRow\<close> what \<open>setupSizing\<close> makes of a row
  group; \<open>selectAll\<close> is \<open>svg.selectAll(selector)\<close>.
\<close>

definition rowChain :: "(nat \<Rightarrow> node \<Rightarrow> error + node) list \<Rightarrow> nat \<Rightarrow> node \<Rightarrow> error + node" where
  "rowChain fs i n = chainE n (map (\<lambda>f. f i) fs)"

definition renderedRow :: "Browser \<Rightarrow> VisConfig \<Rightarrow> nat \<Rightarrow> DoubleBarRow \<Rightarrow> node" where
  "renderedRow b config i d = projr (rowChain (renderSteps b config) 0 (Node i (rowGroup d) []))"

definition sizedRow :: "Browser \<Rightarrow> DoubleBar \<Rightarrow> nat \<Rightarrow> node \<Rightarrow> node" where
  "sizedRow b this index n = projr (rowChain (sizingSteps b this) index n)"

definition selectAll :: "string \<Rightarrow> string \<Rightarrow> svgroot \<Rightarrow> element list" where
  "selectAll tg cls v = filter (matches tg cls) (descendants (root_kids v))"

text \<open>
  The children of the \<open>svg\<close> that the chart creates are row groups and titles.
  \<open>sceneInv\<close> holds of the states that \<open>create\<close> and \<open>updateAsync\<close> produce: every
  child is older than \<open>nextId\<close>, and it is a row group when \<open>svgRows\<close> selects it and
  a title otherwise.
\<close>

definition isRowKid :: "element \<Rightarrow> bool" where
  "isRowKid c =
     ((tagName c = ''rect'' \<or> tagName c = ''text'')
      \<and> list_ex (\<lambda>k. classes c = [k])
            [''row-highlight'', ''legend-text'', ''left-value'', ''right-value'',
             ''left-bar'', ''right-bar''])"

definition isRowGroup :: "node \<Rightarrow> bool" where
  "isRowGroup n =
     (tagName (props n) = ''g'' \<and> classes (props n) = [''chart-row'']
      \<and> list_all isRowKid (kids n))"

definition isTitle :: "node \<Rightarrow> bool" where
  "isTitle n =
     (tagName (props n) = ''text''
      \<and> (classes (props n) = [''left-title'', ''title'']
           \<or> classes (props n) = [''right-title'', ''title''])
      \<and> kids n = [])"

definition sceneInv :: "DoubleBar \<Rightarrow> bool" where
  "sceneInv this =
     (case svg this of
        None \<Rightarrow> False
      | Some v \<Rightarrow>
          list_all
            (\<lambda>n. nid n < nextId this
                 \<and> (case svgRows this of
                        None \<Rightarrow> isTitle n
                      | Some ids \<Rightarrow>
                          if nid n \<in> set ids then isRowGroup n else isTitle n))
            (root_kids v))"


text \<open>The tag and the classes of an element, which the selectors read.\<close>

definition elemShape :: "element \<Rightarrow> string \<times> string list" where
  "elemShape e = (tagName e, classes e)"

definition nodeShape :: "node \<Rightarrow> nat \<times> (string \<times> string list) \<times> (string \<times> string list) list" where
  "nodeShape n = (nid n, elemShape (props n), map elemShape (kids n))"

text \<open>
  Observations of a result: the state that \<open>updateAsync\<close> has returned, and an
  attribute of the elements that a selector finds in the scene, in document order.
\<close>

definition stateOf :: "error + DoubleBar \<times> nat \<Rightarrow> DoubleBar" where
  "stateOf r = fst (projr r)"

definition selectAttr :: "string \<Rightarrow> string \<Rightarrow> string \<Rightarrow> DoubleBar \<Rightarrow> attrval option list" where
  "selectAttr tg cls a this =
     (case svg this of None \<Rightarrow> [] | Some v \<Rightarrow> map (\<lambda>e. attrs e a) (selectAll tg cls v))"

text \<open>A sequence of calls of \<open>updateAsync\<close> by the host, each on the state the last one left.\<close>

record UpdateCall =
  call_data :: VisData
  call_element :: HTMLElement
  call_config :: VisConfig
  call_response :: VisQueryResponse

fun updates :: "Browser \<Rightarrow> DoubleBar \<Rightarrow> UpdateCall list \<Rightarrow> error + DoubleBar" where
  "updates b this [] = Inr this"
| "updates b this (c # cs) =
     andThen (updateAsync b this (call_data c) (call_element c) (call_config c) (call_response c))
       (\<lambda>(this', k). updates b this' cs)"

text \<open>
  A call is successful when the query metadata pass the validation and the chart
  data can be built from the data and the configuration; \<open>chartOf\<close> is that data.
\<close>

definition successful :: "UpdateCall \<Rightarrow> bool" where
  "successful c =
     (validateInputs (call_response c)
      \<and> \<not> isl (createChartData (call_data c) (call_config c)))"

definition chartOf :: "UpdateCall \<Rightarrow> DoubleBarData" where
  "chartOf c = projr (createChartData (call_data c) (call_config c))"

section \<open>Sample inputs\<close>

text \<open>
  A browser in which every code unit is 6 pixels wide and numbers are printed
  without a fraction, and the inputs of a chart with two rows in a container of
  600 by 200 pixels.
\<close>

definition sampleLength :: "jsstring \<Rightarrow> real" where
  "sampleLength t = 6 * real (length t)"

definition sampleBrowser :: Browser where
  "sampleBrowser =
     \<lparr>numberToString = (\<lambda>x. (if x < 0 then lit ''-'' else []) @ digits (nat \<lfloor>\<bar>x\<bar>\<rfloor>)),
      getComputedTextLength = (\<lambda>e. sampleLength (textContent e))\<rparr>"

definition sampleConfig :: VisConfig where
  "sampleConfig =
     \<lparr>query_fields =
        \<lparr>dimensions = [\<lparr>field_name = lit ''category'', field_label = lit ''Category''\<rparr>],
         measures = [\<lparr>field_name = lit ''sold'', field_label = lit ''Sold''\<rparr>,
                     \<lparr>field_name = lit ''returned'', field_label = lit ''Returned''\<rparr>]\<rparr>,
      leftColor = None, rightColor = None\<rparr>"

definition sampleResponse :: VisQueryResponse where
  "sampleResponse =
     \<lparr>qr_pivots = [], qr_dimensions = dimensions (query_fields sampleConfig),
      qr_measure_like = measures (query_fields sampleConfig)\<rparr>"

definition sampleRows :: "DoubleBarRow list" where
  "sampleRows = [\<lparr>name = lit ''Alpha'', left = 10, right = 20\<rparr>,
                 \<lparr>name = lit ''Beta'', left = 30, right = 5\<rparr>]"

definition sampleData :: VisData where
  "sampleData =
     [[lit ''category'' \<mapsto> TextCell (lit ''Alpha''), lit ''sold'' \<mapsto> NumberCell 10,
       lit ''returned'' \<mapsto> NumberCell 20],
      [lit ''category'' \<mapsto> TextCell (lit ''Beta''), lit ''sold'' \<mapsto> NumberCell 30,
       lit ''returned'' \<mapsto> NumberCell 5]]"

definition sampleChart :: DoubleBarData where
  "sampleChart = \<lparr>rows = sampleRows, leftTitle = lit ''Sold'', rightTitle = lit ''Returned''\<rparr>"

definition sampleElement :: HTMLElement where
  "sampleElement = \<lparr>clientWidth = 600, clientHeight = 200\<rparr>"

text \<open>
  Query metadata with two dimensions, data whose measures are all zero, and two
  calls in a row, the second one with no rows in a narrower container.
\<close>

definition twoDimensions :: VisQueryResponse where
  "twoDimensions =
     \<lparr>qr_pivots = [],
      qr_dimensions = [\<lparr>field_name = lit ''category'', field_label = lit ''Category''\<rparr>,
                       \<lparr>field_name = lit ''region'', field_label = lit ''Region''\<rparr>],
      qr_measure_like = measures (query_fields sampleConfig)\<rparr>"

definition zeroData :: VisData where
  "zeroData =
     [[lit ''category'' \<mapsto> TextCell (lit ''Alpha''), lit ''sold'' \<mapsto> NumberCell 0,
       lit ''returned'' \<mapsto> NumberCell 0]]"

definition zeroChart :: DoubleBarData where
  "zeroChart =
     \<lparr>rows = [\<lparr>name = lit ''Alpha'', left = 0, right = 0\<rparr>],
      leftTitle = lit ''Sold'', rightTitle = lit ''Returned''\<rparr>"

definition sampleCalls :: "UpdateCall list" where
  "sampleCalls =
     [\<lparr>call_data = sampleData, call_element = sampleElement, call_config = sampleConfig,
       call_response = sampleResponse\<rparr>,
      \<lparr>call_data = [], call_element = \<lparr>clientWidth = 300, clientHeight = 200\<rparr>,
       call_config = sampleConfig, call_response = sampleResponse\<rparr>]"

text \<open>A configuration whose query fields name one measure only.\<close>

definition oneMeasure :: VisConfig where
  "oneMeasure =
     \<lparr>query_fields =
        \<lparr>dimensions = [\<lparr>field_name = lit ''category'', field_label = lit ''Category''\<rparr>],
         measures = [\<lparr>field_name = lit ''sold'', field_label = lit ''Sold''\<rparr>]\<rparr>,
      leftColor = None, rightColor = None\<rparr>"


section \<open>Text truncation: what the element shows\<close>

lemma truncateLoop_stop:
  "\<not> (js_gt (Num len) wd \<and> t \<noteq> []) \<Longrightarrow> truncateLoop m wd t shown len = shown"
  by (subst truncateLoop.simps) auto

lemma truncateLoop_step:
  "js_gt (Num len) wd \<Longrightarrow> t \<noteq> [] \<Longrightarrow>
   truncateLoop m wd t shown len =
     truncateLoop m wd (butlast t) (butlast t @ ellipsis) (m (butlast t @ ellipsis))"
  by (subst truncateLoop.simps) (simp add: Let_def)

lemma truncateLoop_cut:
  "w < len \<Longrightarrow> t \<noteq> [] \<Longrightarrow>
   \<exists>k<length t. truncateLoop m (Num w) t shown len = take k t @ ellipsis
      \<and> (0 < k \<longrightarrow> m (take k t @ ellipsis) \<le> w)
      \<and> (\<forall>j. k < j \<and> j < length t \<longrightarrow> w < m (take j t @ ellipsis))"
proof (induction t arbitrary: shown len rule: rev_induct)
  case Nil
  then show ?case by simp
next
  case (snoc x xs)
  have step: "truncateLoop m (Num w) (xs @ [x]) shown len =
      truncateLoop m (Num w) xs (xs @ ellipsis) (m (xs @ ellipsis))"
    using snoc.prems by (simp add: truncateLoop_step)
  show ?case
  proof (cases "w < m (xs @ ellipsis) \<and> xs \<noteq> []")
    case True
    from snoc.IH [of "m (xs @ ellipsis)" "xs @ ellipsis"] True
    obtain k where k: "k < length xs"
      "truncateLoop m (Num w) xs (xs @ ellipsis) (m (xs @ ellipsis)) = take k xs @ ellipsis"
      "0 < k \<longrightarrow> m (take k xs @ ellipsis) \<le> w"
      "\<forall>j. k < j \<and> j < length xs \<longrightarrow> w < m (take j xs @ ellipsis)"
      by blast
    have "\<forall>j. k < j \<and> j < length (xs @ [x]) \<longrightarrow> w < m (take j (xs @ [x]) @ ellipsis)"
    proof (intro allI impI)
      fix j assume j: "k < j \<and> j < length (xs @ [x])"
      show "w < m (take j (xs @ [x]) @ ellipsis)"
      proof (cases "j < length xs")
        case True
        with j k(4) show ?thesis by simp
      next
        case False
        with j have "j = length xs" by simp
        with \<open>w < m (xs @ ellipsis) \<and> xs \<noteq> []\<close> show ?thesis by simp
      qed
    qed
    with k step show ?thesis
      by (intro exI [of _ k]) simp
  next
    case False
    then have "truncateLoop m (Num w) xs (xs @ ellipsis) (m (xs @ ellipsis)) = xs @ ellipsis"
      by (intro truncateLoop_stop) auto
    with step False show ?thesis
      by (intro exI [of _ "length xs"]) auto
  qed
qed

text \<open>
  C6 (amended). For every text and every maximum width \<open>w\<close>, truncation leaves the
  text unchanged when it fits or is empty. Otherwise it leaves the longest proper
  prefix of the text, followed by the ellipsis, whose rendered width is at most
  \<open>w\<close>; when no non-empty prefix with the ellipsis fits, it leaves the ellipsis
  alone, whatever its width. So the result fits, or is the lone ellipsis, or is
  the empty text that was given.
\<close>

theorem truncateText_result:
  "(m content \<le> w \<or> content = [] \<longrightarrow> truncateText (Num w) m content = content)
   \<and> (w < m content \<and> content \<noteq> [] \<longrightarrow>
        (\<exists>k<length content. truncateText (Num w) m content = take k content @ ellipsis
           \<and> (0 < k \<longrightarrow> m (truncateText (Num w) m content) \<le> w)
           \<and> (\<forall>j. k < j \<and> j < length content \<longrightarrow> w < m (take j content @ ellipsis))))
   \<and> (m (truncateText (Num w) m content) \<le> w
        \<or> truncateText (Num w) m content = ellipsis
        \<or> truncateText (Num w) m content = [])"
proof -
  let ?r = "truncateText (Num w) m content"
  have a: "m content \<le> w \<or> content = [] \<Longrightarrow> ?r = content"
    unfolding truncateText_def by (intro truncateLoop_stop) auto
  have b: "\<exists>k<length content. ?r = take k content @ ellipsis
           \<and> (0 < k \<longrightarrow> m ?r \<le> w)
           \<and> (\<forall>j. k < j \<and> j < length content \<longrightarrow> w < m (take j content @ ellipsis))"
    if "w < m content \<and> content \<noteq> []"
    using truncateLoop_cut [of w "m content" content m content] that
    unfolding truncateText_def by auto
  have c: "m ?r \<le> w \<or> ?r = ellipsis \<or> ?r = []"
  proof (cases "w < m content \<and> content \<noteq> []")
    case True
    from b [OF True] obtain k where "?r = take k content @ ellipsis" "0 < k \<longrightarrow> m ?r \<le> w"
      by blast
    then show ?thesis by (cases k) auto
  next
    case False
    then have "?r = content" using a by auto
    with False show ?thesis by auto
  qed
  from a b c show ?thesis by blast
qed

theorem truncateText_result_witness:
  "sampleLength (lit ''ab'') \<le> 12
   \<and> truncateText (Num 12) sampleLength (lit ''ab'') = lit ''ab''
   \<and> 13 < sampleLength (lit ''abc'')
   \<and> truncateText (Num 13) sampleLength (lit ''abc'') = lit ''a'' @ ellipsis"
  using truncateText_result [of sampleLength "lit ''ab''" 12]
    truncateText_result [of sampleLength "lit ''abc''" 13]
  by (simp add: truncateText_def truncateLoop.simps sampleLength_def lit_def ellipsis_def)

text \<open>
  C6 as stated fails: with 6 pixels per code unit and a maximum width of 5, the
  text \<open>ab\<close> is cut down to the lone ellipsis, which is 6 pixels wide and is not
  the empty string.
\<close>

theorem truncateText_counterexample:
  "truncateText (Num 5) sampleLength (lit ''ab'') = ellipsis
   \<and> \<not> sampleLength (truncateText (Num 5) sampleLength (lit ''ab'')) \<le> 5
   \<and> truncateText (Num 5) sampleLength (lit ''ab'') \<noteq> []"
  by (simp add: truncateText_def truncateLoop.simps sampleLength_def lit_def ellipsis_def)


section \<open>The tooltip: the ratio shown\<close>










lemma lit_append: "lit (xs @ ys) = lit xs @ lit ys"
  by (simp add: lit_def)











section \<open>Geometry and domains\<close>

lemma extent_fold:
  "foldl (\<lambda>(mn, mx) x. (if mn > f x then f x else mn, if mx < f x then f x else mx)) (a, b) vs
     = (Min (insert a (f ` set vs)), Max (insert b (f ` set vs)))"
proof (induction vs arbitrary: a b)
  case Nil
  then show ?case by simp
next
  case (Cons v vs)
  have 1: "Min (insert (if f v < a then f v else a) (f ` set vs)) = Min (insert a (insert (f v) (f ` set vs)))"
    by (cases "f ` set vs = {}") (auto simp: min_def)
  have 2: "Max (insert (if b < f v then f v else b) (f ` set vs)) = Max (insert b (insert (f v) (f ` set vs)))"
    by (cases "f ` set vs = {}") (auto simp: max_def)
  show ?case by (simp add: Cons.IH 1 2)
qed

lemma extent_max:
  "rs \<noteq> [] \<Longrightarrow> map_option snd (extent rs f) = Some (Max (f ` set rs))"
  by (cases rs) (simp_all add: extent_fold)

lemma maxOfBoth_nonempty:
  "rs \<noteq> [] \<Longrightarrow> maxOfBoth rs = Num (max (Max (left ` set rs)) (Max (right ` set rs)))"
proof -
  assume "rs \<noteq> []"
  moreover have "rowLeftSelector = left" "rowRightSelector = right"
    by (simp_all add: fun_eq_iff rowLeftSelector_def rowRightSelector_def)
  ultimately show ?thesis
    by (simp add: maxOfBoth_def extent_max)
qed

lemma maxOfBoth_empty: "maxOfBoth [] = NaN"
  by (simp add: maxOfBoth_def)

text \<open>
  C2. After the domains are configured, the left and the right value scale have
  the same domain, for every row set; when there is a row, it is
  \<open>[0, max (max of the left values) (max of the right values)]\<close>, the maximum of
  both measures pooled.
\<close>

theorem value_domains_shared:
  "lin_domain (leftBarWidth (setupInputs this d)) = lin_domain (rightBarWidth (setupInputs this d))
   \<and> (rows d \<noteq> [] \<longrightarrow>
        lin_domain (leftBarWidth (setupInputs this d))
          = (Num 0, Num (max (Max (left ` set (rows d))) (Max (right ` set (rows d))))))"
  by (simp add: setupInputs_def maxOfBoth_nonempty)

theorem value_domains_shared_witness:
  "rows sampleChart \<noteq> []
   \<and> lin_domain (leftBarWidth (setupInputs (create vis) sampleChart)) = (Num 0, Num 30)
   \<and> lin_domain (rightBarWidth (setupInputs (create vis) sampleChart)) = (Num 0, Num 30)"
  using value_domains_shared [of "create vis" sampleChart]
  by (auto simp: sampleChart_def sampleRows_def)

text \<open>
  C3. For a width \<open>w\<close> and a measured label width \<open>l\<close>, \<open>graphWidth = w * 0.65\<close>,
  \<open>halfGraphWidth = graphWidth / 2\<close>,
  \<open>halfGraphBarMaxWidth = halfGraphWidth - (l + 10)\<close>,
  \<open>titleTextWidth = halfGraphWidth - 10\<close> and \<open>barOriginX = w - halfGraphWidth\<close>; and
  two states that agree on \<open>width\<close>, \<open>height\<close> and \<open>maxBarLabelWidth\<close> agree on the
  five values, whatever else they hold.
\<close>

theorem geometry_pure:
  "(width this = Num w \<and> maxBarLabelWidth this = Num l \<longrightarrow>
      graphWidth this = Num (w * (65 / 100))
      \<and> halfGraphWidth this = Num (w * (65 / 100) / 2)
      \<and> halfGraphBarMaxWidth this = Num (w * (65 / 100) / 2 - (l + 10))
      \<and> titleTextWidth this = Num (w * (65 / 100) / 2 - 10)
      \<and> barOriginX this = Num (w - w * (65 / 100) / 2))
   \<and> (width this = width that \<and> height this = height that
        \<and> maxBarLabelWidth this = maxBarLabelWidth that \<longrightarrow>
      graphWidth this = graphWidth that
      \<and> halfGraphWidth this = halfGraphWidth that
      \<and> halfGraphBarMaxWidth this = halfGraphBarMaxWidth that
      \<and> titleTextWidth this = titleTextWidth that
      \<and> barOriginX this = barOriginX that)"
  by (simp add: graphWidth_def halfGraphWidth_def halfGraphBarMaxWidth_def titleTextWidth_def
      barOriginX_def)

theorem geometry_pure_witness:
  "graphWidth (vis\<lparr>width := Num 600, maxBarLabelWidth := Num 12\<rparr>) = Num 390
   \<and> halfGraphBarMaxWidth (vis\<lparr>width := Num 600, maxBarLabelWidth := Num 12\<rparr>) = Num 173
   \<and> barOriginX (vis\<lparr>width := Num 600, maxBarLabelWidth := Num 12\<rparr>) = Num 405
   \<and> barOriginX (create (vis\<lparr>width := Num 600, maxBarLabelWidth := Num 12\<rparr>)) = Num 405"
  using geometry_pure [of "vis\<lparr>width := Num 600, maxBarLabelWidth := Num 12\<rparr>" 600 12
      "create (vis\<lparr>width := Num 600, maxBarLabelWidth := Num 12\<rparr>)"]
  by (auto simp: create_def)

lemma band_geometry:
  assumes "band_range sc = (Num a, Num c)" "0 \<le> band_paddingInner sc" "band_paddingInner sc \<le> 1"
  shows "\<exists>st. step sc = Num st \<and> 0 \<le> st
           \<and> bandwidth sc = Num (st * (1 - band_paddingInner sc))
           \<and> st * (1 - band_paddingInner sc) \<le> st"
proof -
  define dn where "dn = max 1 (real (length (band_domain sc)) - band_paddingInner sc
                + band_paddingOuter sc * 2)"
  have dn: "1 \<le> dn" by (simp add: dn_def)
  define st where "st = (if c < a then a - c else c - a) / dn"
  have "step sc = Num st"
    using assms(1) dn
    by (auto simp: step_def band_stop_def band_start_def band_reverse_def st_def dn_def)
  moreover have "0 \<le> st"
    using dn by (simp add: st_def)
  moreover have "st * (1 - band_paddingInner sc) \<le> st"
    using \<open>0 \<le> st\<close> assms(2) by (simp add: mult_left_le)
  ultimately show ?thesis
    by (auto simp: bandwidth_def)
qed

section \<open>Selections, chains and the invariant of the scene\<close>

lemma andThen_Inr [simp]: "andThen (Inr x) f = f x"
  by (simp add: andThen_def)

lemma andThen_Inl [simp]: "andThen (Inl e) f = Inl e"
  by (simp add: andThen_def)

lemma andThen_eq_Inr: "andThen r f = Inr y \<longleftrightarrow> (\<exists>x. r = Inr x \<and> f x = Inr y)"
  by (cases r) simp_all

lemma foldl_andThen_Inl: "foldl andThen (Inl e) fs = Inl e"
  by (induction fs) simp_all

lemma chainE_Nil [simp]: "chainE x [] = Inr x"
  by (simp add: chainE_def)

lemma chainE_Cons [simp]: "chainE x (f # fs) = andThen (f x) (\<lambda>y. chainE y fs)"
  by (cases "f x") (simp_all add: chainE_def foldl_andThen_Inl)

lemma chain_Nil [simp]: "chain x [] = x"
  by (simp add: chain_def)

lemma chain_Cons [simp]: "chain x (f # fs) = chain (f x) fs"
  by (simp add: chain_def)

lemma mapE_Inr: "(\<And>x. x \<in> set xs \<Longrightarrow> f x = Inr (g x)) \<Longrightarrow> mapE f xs = Inr (map g xs)"
  by (induction xs) simp_all

lemma onRows_Inr:
  assumes "\<And>n i. n \<in> set ns \<Longrightarrow> indexOf (nid n) ids = Some i \<Longrightarrow> f i n = Inr (g i n)"
  shows "onRows ids f ns =
    Inr (map (\<lambda>n. case indexOf (nid n) ids of None \<Rightarrow> n | Some i \<Rightarrow> g i n) ns)"
  unfolding onRows_def
  by (rule mapE_Inr) (auto split: option.splits simp: assms)


lemma rowChain_Nil [simp]: "rowChain [] i n = Inr n"
  by (simp add: rowChain_def)

lemma rowChain_Cons: "rowChain (f # fs) i n = andThen (f i n) (rowChain fs i)"
  by (simp add: rowChain_def [abs_def])

lemma chainE_onRows:
  assumes "\<And>n i. n \<in> set ns \<Longrightarrow> indexOf (nid n) ids = Some i \<Longrightarrow> \<exists>r. rowChain fs i n = Inr r"
    and "\<And>f i n r. f \<in> set fs \<Longrightarrow> f i n = Inr r \<Longrightarrow> nid r = nid n"
  shows "chainE ns (map (onRows ids) fs) =
    Inr (map (\<lambda>n. case indexOf (nid n) ids of None \<Rightarrow> n | Some i \<Rightarrow> projr (rowChain fs i n)) ns)"
  using assms
proof (induction fs arbitrary: ns)
  case Nil
  have "map (\<lambda>n. case indexOf (nid n) ids of None \<Rightarrow> n | Some i \<Rightarrow> projr (rowChain [] i n)) ns = ns"
    by (induction ns) (auto split: option.splits)
  then show ?case by simp
next
  case (Cons f fs)
  define g where "g = (\<lambda>i n. projr (f i n))"
  define ns' where "ns' = map (\<lambda>n. case indexOf (nid n) ids of None \<Rightarrow> n | Some i \<Rightarrow> g i n) ns"
  have sel: "f i n = Inr (g i n) \<and> nid (g i n) = nid n \<and> (\<exists>r. rowChain fs i (g i n) = Inr r)"
    if "n \<in> set ns" "indexOf (nid n) ids = Some i" for n i
  proof -
    from Cons.prems(1) [OF that] obtain r where "rowChain (f # fs) i n = Inr r" ..
    then obtain y where y: "f i n = Inr y" "rowChain fs i y = Inr r"
      by (auto simp: rowChain_Cons andThen_eq_Inr)
    then have "g i n = y" by (simp add: g_def)
    moreover have "nid y = nid n" using Cons.prems(2) [of f i n y] y by simp
    ultimately show ?thesis using y by blast
  qed
  have step: "onRows ids f ns = Inr ns'"
    unfolding ns'_def by (rule onRows_Inr) (use sel in blast)
  have ih: "chainE ns' (map (onRows ids) fs) =
    Inr (map (\<lambda>n. case indexOf (nid n) ids of None \<Rightarrow> n | Some i \<Rightarrow> projr (rowChain fs i n)) ns')"
  proof (rule Cons.IH)
    fix n' i assume a: "n' \<in> set ns'" "indexOf (nid n') ids = Some i"
    then obtain n where n: "n \<in> set ns"
      "n' = (case indexOf (nid n) ids of None \<Rightarrow> n | Some i \<Rightarrow> g i n)"
      unfolding ns'_def by auto
    show "\<exists>r. rowChain fs i n' = Inr r"
    proof (cases "indexOf (nid n) ids")
      case None
      with n a show ?thesis by simp
    next
      case (Some j)
      with n have n': "n' = g j n" by simp
      from sel [OF n(1) Some] have "nid (g j n) = nid n" by blast
      with n' a Some have "j = i" by simp
      with sel [OF n(1) Some] n' show ?thesis by blast
    qed
  next
    fix h i n r assume "h \<in> set fs" "h i n = Inr r"
    then show "nid r = nid n" using Cons.prems(2) [of h i n r] by simp
  qed
  have eq: "(case indexOf (nid n') ids of None \<Rightarrow> n' | Some i \<Rightarrow> projr (rowChain fs i n'))
        = (case indexOf (nid n) ids of None \<Rightarrow> n | Some i \<Rightarrow> projr (rowChain (f # fs) i n))"
    if "n \<in> set ns" "n' = (case indexOf (nid n) ids of None \<Rightarrow> n | Some i \<Rightarrow> g i n)" for n n'
  proof (cases "indexOf (nid n) ids")
    case None
    with that show ?thesis by simp
  next
    case (Some j)
    from sel [OF that(1) Some] have 1: "f j n = Inr (g j n)" and 2: "nid (g j n) = nid n"
      by blast+
    have "rowChain (f # fs) j n = rowChain fs j (g j n)"
      by (simp only: rowChain_Cons 1 andThen_Inr)
    with Some that(2) 2 show ?thesis by simp
  qed
  have "map (\<lambda>n. case indexOf (nid n) ids of None \<Rightarrow> n | Some i \<Rightarrow> projr (rowChain fs i n)) ns'
     = map (\<lambda>n. case indexOf (nid n) ids of None \<Rightarrow> n | Some i \<Rightarrow> projr (rowChain (f # fs) i n)) ns"
    unfolding ns'_def map_map o_def
    by (rule map_cong [OF refl]) (rule eq, simp_all)
  with ih step show ?case by simp
qed

lemma bindKids_none: "\<forall>e\<in>set es. \<not> p e \<Longrightarrow> bindKids p vs es = (es, vs)"
  by (induction es) (simp_all add: bindOne_def)

lemma bindNodes_none: "\<forall>e\<in>set (descendants ns). \<not> p e \<Longrightarrow> bindNodes p vs ns = (ns, vs)"
  by (induction ns) (simp_all add: bindOne_def bindKids_none)


lemma matches_shape: "elemShape e = elemShape e' \<Longrightarrow> matches tg cls e = matches tg cls e'"
  by (simp add: elemShape_def matches_def)

lemma isRowKid_shape: "elemShape e = elemShape e' \<Longrightarrow> isRowKid e = isRowKid e'"
  by (simp add: elemShape_def isRowKid_def)

lemma list_all_shape:
  assumes "\<And>e e'. elemShape e = elemShape e' \<Longrightarrow> P e = P e'"
  shows "map elemShape xs = map elemShape ys \<Longrightarrow> list_all P xs = list_all P ys"
proof (induction xs arbitrary: ys)
  case Nil
  then show ?case by simp
next
  case (Cons x xs)
  then obtain y ys' where ys: "ys = y # ys'" by (cases ys) auto
  with Cons.prems have "elemShape x = elemShape y" "map elemShape xs = map elemShape ys'"
    by simp_all
  with Cons.IH [of ys'] assms [of x y] ys show ?case by simp
qed

lemma isRowGroup_shape: "nodeShape n = nodeShape n' \<Longrightarrow> isRowGroup n = isRowGroup n'"
proof -
  assume a: "nodeShape n = nodeShape n'"
  then have "map elemShape (kids n) = map elemShape (kids n')"
    by (simp add: nodeShape_def)
  then have "list_all isRowKid (kids n) = list_all isRowKid (kids n')"
    by (rule list_all_shape [rotated]) (rule isRowKid_shape)
  moreover from a have "tagName (props n) = tagName (props n')"
    "classes (props n) = classes (props n')"
    by (simp_all add: nodeShape_def elemShape_def)
  ultimately show ?thesis
    by (simp add: isRowGroup_def)
qed

lemma isTitle_shape: "nodeShape n = nodeShape n' \<Longrightarrow> isTitle n = isTitle n'"
  by (auto simp: nodeShape_def isTitle_def elemShape_def)

lemma updFirst_shape:
  assumes "\<And>e. elemShape (f e) = elemShape e"
  shows "updFirst p f es = Some es' \<Longrightarrow> map elemShape es' = map elemShape es"
  by (induction es arbitrary: es') (auto simp: assms split: if_splits)

lemma selectUpdate_shape:
  assumes "\<And>e. elemShape (f e) = elemShape e"
  shows "map nodeShape (selectUpdate p f ns) = map nodeShape ns"
proof (induction ns)
  case Nil
  then show ?case by simp
next
  case (Cons n ns)
  show ?case
  proof (cases "p (props n)")
    case True
    then show ?thesis by (simp add: nodeShape_def assms)
  next
    case False
    show ?thesis
    proof (cases "updFirst p f (kids n)")
      case None
      with False Cons.IH show ?thesis by simp
    next
      case (Some ks')
      from updFirst_shape [OF assms Some] False Some show ?thesis
        by (simp add: nodeShape_def)
    qed
  qed
qed

lemma updFirst_None: "\<forall>e\<in>set es. \<not> p e \<Longrightarrow> updFirst p f es = None"
  by (induction es) simp_all

lemma isRowKid_not_title:
  "isRowKid c \<Longrightarrow> \<not> matches ''text'' ''left-title'' c \<and> \<not> matches ''text'' ''right-title'' c
     \<and> \<not> matches ''g'' ''chart-row'' c \<and> \<not> matches ''text'' ''dummy-left'' c
     \<and> \<not> matches ''text'' ''dummy-right'' c"
  by (auto simp: isRowKid_def matches_def)

lemma selectUpdate_rows:
  assumes "\<And>e. elemShape (f e) = elemShape e"
    and "p = matches ''text'' ''left-title'' \<or> p = matches ''text'' ''right-title''"
  shows "filter isRowGroup (selectUpdate p f ns) = filter isRowGroup ns"
proof (induction ns)
  case Nil
  then show ?case by simp
next
  case (Cons n ns)
  have sh: "map nodeShape (selectUpdate p f (n # ns)) = map nodeShape (n # ns)"
    by (rule selectUpdate_shape [OF assms(1)])
  show ?case
  proof (cases "isRowGroup n")
    case True
    then have "\<not> p (props n)"
      using assms(2) by (auto simp: isRowGroup_def matches_def)
    moreover from True have "\<forall>e\<in>set (kids n). \<not> p e"
      using assms(2) isRowKid_not_title by (auto simp: isRowGroup_def list_all_iff)
    ultimately show ?thesis
      using Cons.IH by (simp add: updFirst_None)
  next
    case False
    show ?thesis
    proof (cases "p (props n)")
      case True
      have "\<not> isRowGroup (Node (nid n) (f (props n)) (kids n))"
        using False isRowGroup_shape [of "Node (nid n) (f (props n)) (kids n)" n]
        by (simp add: nodeShape_def assms(1))
      with True False show ?thesis by simp
    next
      case np: False
      show ?thesis
      proof (cases "updFirst p f (kids n)")
        case None
        with np False Cons.IH show ?thesis by simp
      next
        case (Some ks')
        have "\<not> isRowGroup (Node (nid n) (props n) ks')"
          using False isRowGroup_shape [of "Node (nid n) (props n) ks'" n]
            updFirst_shape [OF assms(1) Some]
          by (simp add: nodeShape_def)
        with np Some False show ?thesis by simp
      qed
    qed
  qed
qed

lemma descendants_shape:
  "map nodeShape ns = map nodeShape ns' \<Longrightarrow>
   map elemShape (descendants ns) = map elemShape (descendants ns')"
proof (induction ns arbitrary: ns')
  case Nil
  then show ?case by simp
next
  case (Cons n ns)
  then obtain m ms where "ns' = m # ms" by (cases ns') auto
  with Cons show ?case by (auto simp: nodeShape_def)
qed

lemma filter_matches_shape:
  "map elemShape xs = map elemShape ys \<Longrightarrow>
   length (filter (matches tg cls) xs) = length (filter (matches tg cls) ys)"
proof (induction xs arbitrary: ys)
  case Nil
  then show ?case by simp
next
  case (Cons x xs)
  then obtain y ys' where ys: "ys = y # ys'" by (cases ys) auto
  with Cons.prems have "elemShape x = elemShape y" "map elemShape xs = map elemShape ys'"
    by simp_all
  with Cons.IH [of ys'] matches_shape [of x y tg cls] ys show ?case by simp
qed

lemma rowChain_render_ex:
  "\<exists>r. rowChain (renderSteps b config) j (Node i (rowGroup d) []) = Inr r"
  by (simp add: rowChain_def renderSteps_def onProps_def appendChild_def withDatum_def rowGroup_def
      rowHighlight_def legendText_def leftValue_def rightValue_def leftBar_def rightBar_def
      createElement_def attr_def setClass_def setText_def on_def)

lemma renderedRow_eq:
  "renderedRow b config i d =
     Node i
       \<lparr>tagName = ''g'', classes = [''chart-row''],
        attrs = [''fill'' \<mapsto> AStr ''rgba(255, 255, 255, 0)''],
        textContent = [], datum = Some d, listeners = [''mouseover'', ''mouseout'']\<rparr>
       [\<lparr>tagName = ''rect'', classes = [''row-highlight''],
         attrs = [''x'' \<mapsto> ANum (Num 0), ''rx'' \<mapsto> ANum (Num 5), ''ry'' \<mapsto> ANum (Num 5),
                  ''fill-opacity'' \<mapsto> ANum (Num (1 / 2))],
         textContent = [], datum = Some d, listeners = []\<rparr>,
        \<lparr>tagName = ''text'', classes = [''legend-text''],
         attrs = [''dy'' \<mapsto> AStr ''.35em'', ''fill'' \<mapsto> AStr ''#000'',
                  ''font-family'' \<mapsto> AStr ''sans-serif'', ''font-size'' \<mapsto> ANum (Num 11)],
         textContent = [], datum = Some d, listeners = []\<rparr>,
        \<lparr>tagName = ''text'', classes = [''left-value''],
         attrs = [''dy'' \<mapsto> AStr ''.35em'', ''text-anchor'' \<mapsto> AStr ''end'',
                  ''font-family'' \<mapsto> AStr ''sans-serif'', ''font-size'' \<mapsto> ANum (Num 12),
                  ''fill'' \<mapsto> AStr ''#888888''],
         textContent = numberToString b (left d), datum = Some d, listeners = []\<rparr>,
        \<lparr>tagName = ''text'', classes = [''right-value''],
         attrs = [''dy'' \<mapsto> AStr ''.35em'', ''font-family'' \<mapsto> AStr ''sans-serif'',
                  ''font-size'' \<mapsto> ANum (Num 12), ''fill'' \<mapsto> AStr ''#888888''],
         textContent = numberToString b (right d), datum = Some d, listeners = []\<rparr>,
        \<lparr>tagName = ''rect'', classes = [''left-bar''],
         attrs = [''fill'' \<mapsto> AStr (barColor (leftColor config) leftColor_default)],
         textContent = [], datum = Some d, listeners = []\<rparr>,
        \<lparr>tagName = ''rect'', classes = [''right-bar''],
         attrs = [''fill'' \<mapsto> AStr (barColor (rightColor config) rightColor_default)],
         textContent = [], datum = Some d, listeners = []\<rparr>]"
  by (simp add: renderedRow_def rowChain_def renderSteps_def onProps_def appendChild_def
      withDatum_def rowGroup_def
      rowHighlight_def legendText_def leftValue_def rightValue_def leftBar_def rightBar_def
      createElement_def attr_def setClass_def setText_def on_def rowLeftSelector_def
      rowRightSelector_def)

lemma rowChain_render:
  "rowChain (renderSteps b config) j (Node i (rowGroup d) []) = Inr (renderedRow b config i d)"
proof -
  have "rowChain (renderSteps b config) j (Node i (rowGroup d) [])
      = rowChain (renderSteps b config) 0 (Node i (rowGroup d) [])"
    by (simp add: rowChain_def renderSteps_def)
  with rowChain_render_ex [of b config 0 i d] show ?thesis
    by (auto simp: renderedRow_def)
qed

lemma rowChain_sizing_ex:
  "\<exists>r. rowChain (sizingSteps b this) j (renderedRow b config i d) = Inr r"
  by (simp add: renderedRow_eq rowChain_def sizingSteps_def onProps_def onKids_def withDatum_def
      matches_def attr_def setText_def truncateElement_def)

lemma rowChain_sizing:
  "rowChain (sizingSteps b this) j (renderedRow b config i d)
     = Inr (sizedRow b this j (renderedRow b config i d))"
  using rowChain_sizing_ex [of b this j config i d] by (auto simp: sizedRow_def)

lemma renderSteps_nid:
  "f \<in> set (renderSteps b config) \<Longrightarrow> f i n = Inr r \<Longrightarrow> nid r = nid n"
  by (auto simp: renderSteps_def onProps_def appendChild_def split: sum.splits)

lemma sizingSteps_nid:
  "f \<in> set (sizingSteps b this) \<Longrightarrow> f i n = Inr r \<Longrightarrow> nid r = nid n"
  by (auto simp: sizingSteps_def onProps_def onKids_def split: sum.splits)

lemma indexOf_None: "x \<notin> set xs \<Longrightarrow> indexOf x xs = None"
  by (induction xs) auto

lemma indexOf_upt: "k \<le> x \<Longrightarrow> x < k + n \<Longrightarrow> indexOf x [k..<k + n] = Some (x - k)"
proof (induction n arbitrary: k)
  case 0
  then show ?case by simp
next
  case (Suc n)
  have "[k..<k + Suc n] = k # [Suc k..<Suc k + n]"
    by (simp add: upt_conv_Cons)
  moreover have "indexOf x [Suc k..<Suc k + n] = Some (x - Suc k)" if "x \<noteq> k"
    using Suc.prems that by (intro Suc.IH) auto
  ultimately show ?case using Suc.prems by (auto simp: Suc_diff_Suc)
qed

lemma chainE_onRows_split:
  assumes pre: "\<forall>n\<in>set pre. nid n \<notin> set ids" and post: "\<forall>n\<in>set post. nid n \<notin> set ids"
    and sel: "\<And>n. n \<in> set sel \<Longrightarrow> \<exists>i r. indexOf (nid n) ids = Some i \<and> rowChain fs i n = Inr r"
    and nidp: "\<And>f i n r. f \<in> set fs \<Longrightarrow> f i n = Inr r \<Longrightarrow> nid r = nid n"
  shows "chainE (pre @ sel @ post) (map (onRows ids) fs) =
    Inr (pre @ map (\<lambda>n. projr (rowChain fs (the (indexOf (nid n) ids)) n)) sel @ post)"
proof -
  let ?g = "\<lambda>n. case indexOf (nid n) ids of None \<Rightarrow> n | Some i \<Rightarrow> projr (rowChain fs i n)"
  have "chainE (pre @ sel @ post) (map (onRows ids) fs) = Inr (map ?g (pre @ sel @ post))"
  proof (rule chainE_onRows)
    fix n i assume a: "n \<in> set (pre @ sel @ post)" "indexOf (nid n) ids = Some i"
    then have "n \<in> set sel"
      using pre post indexOf_None [of "nid n" ids] by auto
    from sel [OF this] a(2) show "\<exists>r. rowChain fs i n = Inr r" by auto
  next
    fix f i n r assume "f \<in> set fs" "f i n = Inr r"
    then show "nid r = nid n" by (rule nidp)
  qed
  moreover have "map ?g pre = pre"
    using pre by (intro map_idI) (simp add: indexOf_None)
  moreover have "map ?g post = post"
    using post by (intro map_idI) (simp add: indexOf_None)
  moreover have "map ?g sel = map (\<lambda>n. projr (rowChain fs (the (indexOf (nid n) ids)) n)) sel"
  proof (rule map_cong [OF refl])
    fix n assume "n \<in> set sel"
    from sel [OF this] show "?g n = projr (rowChain fs (the (indexOf (nid n) ids)) n)" by auto
  qed
  ultimately show ?thesis by simp
qed

lemma maxTextLength_Num: "\<exists>w. maxTextLength b (Num w0) es = Num w \<and> w0 \<le> w"
proof (induction es arbitrary: w0)
  case Nil
  then show ?case by (simp add: maxTextLength_def)
next
  case (Cons e es)
  from Cons.IH [of "max w0 (getComputedTextLength b e)"]
  obtain w where "maxTextLength b (Num (max w0 (getComputedTextLength b e))) es = Num w"
    "max w0 (getComputedTextLength b e) \<le> w" by blast
  then show ?case by (auto simp: maxTextLength_def)
qed

lemma determineMaxBarValueWidth_ok:
  assumes "svg s = Some v"
    and "\<forall>e\<in>set (descendants (root_kids v)).
           \<not> matches ''text'' ''dummy-left'' e \<and> \<not> matches ''text'' ''dummy-right'' e"
  shows "\<exists>w\<ge>0. maxBarValueWidth b rs = Num w
           \<and> determineMaxBarValueWidth b s rs = Inr (s\<lparr>maxBarLabelWidth := Num w\<rparr>)"
proof -
  have 1: "bindNodes (matches ''text'' ''dummy-left'') rs (root_kids v) = (root_kids v, rs)"
    using assms(2) by (intro bindNodes_none) simp
  have 2: "bindNodes (matches ''text'' ''dummy-right'') rs (root_kids v) = (root_kids v, rs)"
    using assms(2) by (intro bindNodes_none) simp
  obtain w1 where w1: "maxTextLength b (Num 0)
      (map (\<lambda>d. dummyText ''dummy-left'' (numberToString b (rowLeftSelector d)) d) rs) = Num w1"
      "0 \<le> w1"
    using maxTextLength_Num by blast
  obtain w2 where w2: "maxTextLength b (Num w1)
      (map (\<lambda>d. dummyText ''dummy-right'' (numberToString b (rowRightSelector d)) d) rs) = Num w2"
      "w1 \<le> w2"
    using maxTextLength_Num by blast
  have "s\<lparr>maxBarLabelWidth := Num w2, svg := Some (v\<lparr>root_kids := root_kids v\<rparr>)\<rparr>
      = s\<lparr>maxBarLabelWidth := Num w2\<rparr>"
    using assms(1) by (cases s) simp
  then have "determineMaxBarValueWidth b s rs = Inr (s\<lparr>maxBarLabelWidth := Num w2\<rparr>)"
    using assms(1) by (simp add: determineMaxBarValueWidth_def 1 2 w1 w2)
  moreover have "maxBarValueWidth b rs = Num w2"
    by (simp add: maxBarValueWidth_def w1 w2)
  ultimately show ?thesis using w1(2) w2(2) by (intro exI [of _ w2]) simp
qed

lemma enterAppend_ids: "map nid (enterAppend k mk vs) = [k..<k + length vs]"
proof -
  have "nid \<circ> (\<lambda>(i, v). Node i (mk v) []) = fst"
    by (auto simp: fun_eq_iff)
  then show ?thesis by (simp add: enterAppend_def)
qed

lemma setupRender_ok:
  assumes "svg s = Some v" "tooltip s = Some tip"
    and ns0: "ns0 = (case svgRows s of None \<Rightarrow> root_kids v | Some old \<Rightarrow> removeRows old (root_kids v))"
    and nomatch: "\<forall>e\<in>set (descendants ns0). \<not> matches ''g'' ''chart-row'' e"
    and fresh: "\<forall>n\<in>set ns0. nid n < nextId s"
  shows "setupRender b s cd config =
    Inr (s\<lparr>svgRows := Some [nextId s..<nextId s + length (rows cd)],
           svg := Some (v\<lparr>root_kids :=
              (ns0 @ map (\<lambda>(i, d). renderedRow b config i d) (enumerate (nextId s) (rows cd)))
              @ [Node (nextId s + length (rows cd)) leftTitleText [],
                 Node (Suc (nextId s + length (rows cd))) rightTitleText []]\<rparr>),
           nextId := Suc (Suc (nextId s + length (rows cd)))\<rparr>)"
proof -
  let ?k = "nextId s" and ?rs = "rows cd"
  let ?created = "enterAppend ?k rowGroup ?rs"
  let ?ids = "[?k..<?k + length ?rs]"
  have bind: "bindNodes (matches ''g'' ''chart-row'') ?rs ns0 = (ns0, ?rs)"
    using nomatch by (intro bindNodes_none) simp
  have ids: "map nid ?created = ?ids"
    by (rule enterAppend_ids)
  have len: "length ?created = length ?rs"
    by (simp add: enterAppend_def)
  have "chainE (ns0 @ ?created @ []) (map (onRows ?ids) (renderSteps b config)) =
      Inr (ns0 @ map (\<lambda>n. projr (rowChain (renderSteps b config) (the (indexOf (nid n) ?ids)) n))
             ?created @ [])"
  proof (rule chainE_onRows_split)
    show "\<forall>n\<in>set ns0. nid n \<notin> set ?ids" using fresh by auto
    show "\<forall>n\<in>set []. nid n \<notin> set ?ids" by simp
  next
    fix n assume "n \<in> set ?created"
    then obtain i d where n: "n = Node i (rowGroup d) []" and "(i, d) \<in> set (enumerate ?k ?rs)"
      by (auto simp: enterAppend_def)
    then have "?k \<le> i" "i < ?k + length ?rs"
      by (auto simp: in_set_enumerate_eq)
    then have "indexOf (nid n) ?ids = Some (i - ?k)"
      using n by (simp add: indexOf_upt)
    then show "\<exists>j r. indexOf (nid n) ?ids = Some j \<and> rowChain (renderSteps b config) j n = Inr r"
      using n rowChain_render by blast
  next
    fix f i n r assume "f \<in> set (renderSteps b config)" "f i n = Inr r"
    then show "nid r = nid n" by (rule renderSteps_nid)
  qed
  moreover have "map (\<lambda>n. projr (rowChain (renderSteps b config) (the (indexOf (nid n) ?ids)) n))
      ?created = map (\<lambda>(i, d). renderedRow b config i d) (enumerate ?k ?rs)"
    by (simp add: enterAppend_def rowChain_render case_prod_beta)
  ultimately have chain: "chainE (ns0 @ ?created) (map (onRows ?ids) (renderSteps b config)) =
      Inr (ns0 @ map (\<lambda>(i, d). renderedRow b config i d) (enumerate ?k ?rs))"
    by simp
  show ?thesis
    using assms(1,2)
    unfolding setupRender_def
    by (simp add: ns0 [symmetric] bind Let_def ids len chain)
qed


lemma sizing_getters_svg [simp]:
  "sizingSteps b ((this::DoubleBar)\<lparr>svg := x\<rparr>) = sizingSteps b this"
  "sizeTitles b ((this::DoubleBar)\<lparr>svg := x\<rparr>) = sizeTitles b this"
  by (simp_all add: sizingSteps_def sizeTitles_def fun_eq_iff rowHeight_def barHeight_def
      barMargin_def rowHighlightThickness_def legendTextWidth_def legendWidth_def graphWidth_def
      barOriginX_def halfGraphWidth_def titleTextWidth_def)

lemma setupSizing_ok:
  assumes "svg s = Some v" "tooltip s = Some tip" "svgRows s = Some [k..<k + length rs]"
    and kids: "root_kids v = (ns0 @ map (\<lambda>(i, d). renderedRow b config i d) (enumerate k rs)) @ post"
    and pre: "\<forall>n\<in>set ns0. nid n < k"
    and post: "\<forall>n\<in>set post. k + length rs \<le> nid n"
  shows "setupSizing b s cd =
    Inr ((configureRanges s tip)\<lparr>svg := Some (v\<lparr>root_kids :=
       sizeTitles b (configureRanges s tip) cd
         (ns0 @ map (\<lambda>(i, d). sizedRow b (configureRanges s tip) (i - k) (renderedRow b config i d))
                  (enumerate k rs) @ post)\<rparr>)\<rparr>)"
proof -
  let ?cr = "configureRanges s tip"
  let ?ids = "[k..<k + length rs]"
  let ?sel = "map (\<lambda>(i, d). renderedRow b config i d) (enumerate k rs)"
  have idx: "indexOf i ?ids = Some (i - k)" if "(i, d) \<in> set (enumerate k rs)" for i d
    using that by (intro indexOf_upt) (auto simp: in_set_enumerate_eq)
  have "chainE (ns0 @ ?sel @ post) (map (onRows ?ids) (sizingSteps b ?cr)) =
      Inr (ns0 @ map (\<lambda>n. projr (rowChain (sizingSteps b ?cr) (the (indexOf (nid n) ?ids)) n))
             ?sel @ post)"
  proof (rule chainE_onRows_split)
    show "\<forall>n\<in>set ns0. nid n \<notin> set ?ids" using pre by auto
    show "\<forall>n\<in>set post. nid n \<notin> set ?ids" using post by auto
  next
    fix n assume "n \<in> set ?sel"
    then obtain i d where n: "n = renderedRow b config i d" and id: "(i, d) \<in> set (enumerate k rs)"
      by auto
    have "nid n = i" using n by (simp add: renderedRow_eq)
    with idx [OF id] have "indexOf (nid n) ?ids = Some (i - k)" by simp
    moreover have "rowChain (sizingSteps b ?cr) (i - k) n
        = Inr (sizedRow b ?cr (i - k) (renderedRow b config i d))"
      unfolding n by (rule rowChain_sizing)
    ultimately
    show "\<exists>j r. indexOf (nid n) ?ids = Some j \<and> rowChain (sizingSteps b ?cr) j n = Inr r"
      by blast
  next
    fix f i n r assume "f \<in> set (sizingSteps b ?cr)" "f i n = Inr r"
    then show "nid r = nid n" by (rule sizingSteps_nid)
  qed
  moreover have "map (\<lambda>n. projr (rowChain (sizingSteps b ?cr) (the (indexOf (nid n) ?ids)) n)) ?sel
      = map (\<lambda>(i, d). sizedRow b ?cr (i - k) (renderedRow b config i d)) (enumerate k rs)"
    unfolding map_map o_def
  proof (rule map_cong [OF refl])
    fix x assume x: "x \<in> set (enumerate k rs)"
    obtain i d where [simp]: "x = (i, d)" by (cases x)
    have "nid (renderedRow b config i d) = i" by (simp add: renderedRow_eq)
    with idx [of i d] x
    show "projr (rowChain (sizingSteps b ?cr)
             (the (indexOf (nid (case x of (i, d) \<Rightarrow> renderedRow b config i d)) ?ids))
             (case x of (i, d) \<Rightarrow> renderedRow b config i d))
        = (case x of (i, d) \<Rightarrow> sizedRow b ?cr (i - k) (renderedRow b config i d))"
      by (simp add: sizedRow_def)
  qed
  ultimately have chain: "chainE (root_kids v) (map (onRows ?ids) (sizingSteps b ?cr)) =
      Inr (ns0 @ map (\<lambda>(i, d). sizedRow b ?cr (i - k) (renderedRow b config i d))
             (enumerate k rs) @ post)"
    by (simp add: kids)
  show ?thesis
    using assms(1,2,3)
    unfolding setupSizing_def
    by (simp add: Let_def chain)
qed

lemma elemShape_edit [simp]:
  "elemShape (attr k x e) = elemShape e"
  "elemShape (setText t e) = elemShape e"
  "elemShape (truncateElement b w e) = elemShape e"
  by (simp_all add: elemShape_def attr_def setText_def truncateElement_def)

lemma sizeTitles_shape: "map nodeShape (sizeTitles b t cd ns) = map nodeShape ns"
  by (simp add: sizeTitles_def selectUpdate_shape)

lemma sizeTitles_rows: "filter isRowGroup (sizeTitles b t cd ns) = filter isRowGroup ns"
  by (simp add: sizeTitles_def selectUpdate_rows)

lemma list_all_nodeShape:
  assumes "\<And>n n'. nodeShape n = nodeShape n' \<Longrightarrow> P n = P n'"
  shows "map nodeShape xs = map nodeShape ys \<Longrightarrow> list_all P xs = list_all P ys"
proof (induction xs arbitrary: ys)
  case Nil
  then show ?case by simp
next
  case (Cons x xs)
  then obtain y ys' where ys: "ys = y # ys'" by (cases ys) auto
  with Cons.prems have "nodeShape x = nodeShape y" "map nodeShape xs = map nodeShape ys'"
    by simp_all
  with Cons.IH [of ys'] assms [of x y] ys show ?case by simp
qed

lemma count_shape:
  "map nodeShape ns = map nodeShape ns' \<Longrightarrow>
   length (filter (matches tg cls) (descendants ns))
     = length (filter (matches tg cls) (descendants ns'))"
  by (intro filter_matches_shape descendants_shape)

lemma row_descendants:
  assumes "isRowGroup n"
  shows "matches ''g'' ''chart-row'' (props n)"
    and "\<not> matches ''text'' cls (props n)"
    and "filter (matches ''g'' ''chart-row'') (kids n) = []"
    and "filter (matches ''text'' ''left-title'') (kids n) = []"
    and "filter (matches ''text'' ''right-title'') (kids n) = []"
    and "filter (matches ''text'' ''dummy-left'') (kids n) = []"
    and "filter (matches ''text'' ''dummy-right'') (kids n) = []"
proof -
  from assms have k: "\<forall>c\<in>set (kids n). isRowKid c"
    by (simp add: isRowGroup_def list_all_iff)
  from assms show "matches ''g'' ''chart-row'' (props n)" "\<not> matches ''text'' cls (props n)"
    by (simp_all add: isRowGroup_def matches_def)
  have "filter (matches tg cls) (kids n) = []"
    if "\<And>c. isRowKid c \<Longrightarrow> \<not> matches tg cls c" for tg cls
    using k that by (simp add: filter_empty_conv)
  then show
    "filter (matches ''g'' ''chart-row'') (kids n) = []"
    "filter (matches ''text'' ''left-title'') (kids n) = []"
    "filter (matches ''text'' ''right-title'') (kids n) = []"
    "filter (matches ''text'' ''dummy-left'') (kids n) = []"
    "filter (matches ''text'' ''dummy-right'') (kids n) = []"
    using isRowKid_not_title by blast+
qed

lemma title_descendants:
  assumes "isTitle n"
  shows "\<not> matches ''g'' cls (props n)"
    and "\<not> matches ''text'' ''dummy-left'' (props n)"
    and "\<not> matches ''text'' ''dummy-right'' (props n)"
    and "kids n = []"
    and "\<not> isRowGroup n"
  using assms by (auto simp: isTitle_def matches_def isRowGroup_def)

lemma count_rows: "list_all isRowGroup ns \<Longrightarrow>
  length (filter (matches ''g'' ''chart-row'') (descendants ns)) = length ns
  \<and> filter (matches ''text'' ''left-title'') (descendants ns) = []
  \<and> filter (matches ''text'' ''right-title'') (descendants ns) = []"
proof (induction ns)
  case Nil
  then show ?case by simp
next
  case (Cons n ns)
  then have "isRowGroup n" by simp
  from row_descendants [OF this] Cons show ?case by simp
qed

lemma count_titles: "list_all isTitle ns \<Longrightarrow>
  filter (matches ''g'' ''chart-row'') (descendants ns) = []"
proof (induction ns)
  case Nil
  then show ?case by simp
next
  case (Cons n ns)
  then have "isTitle n" by simp
  from title_descendants [OF this] Cons show ?case by simp
qed

lemma descendants_append: "descendants (xs @ ys) = descendants xs @ descendants ys"
  by (induction xs) simp_all

lemma filter_descendants_removed:
  assumes "\<And>n. n \<in> set ns \<Longrightarrow> \<not> P n \<Longrightarrow> \<not> M (props n) \<and> filter M (kids n) = []"
  shows "filter M (descendants (filter P ns)) = filter M (descendants ns)"
  using assms
proof (induction ns)
  case Nil
  then show ?case by simp
next
  case (Cons n ns)
  then have ih: "filter M (descendants (filter P ns)) = filter M (descendants ns)" by simp
  show ?case
  proof (cases "P n")
    case True
    with ih show ?thesis by simp
  next
    case False
    with Cons.prems [of n] have "\<not> M (props n)" "filter M (kids n) = []" by simp_all
    with False ih show ?thesis by simp
  qed
qed

lemma no_dummies:
  assumes "\<forall>n\<in>set ns. isRowGroup n \<or> isTitle n"
  shows "\<forall>e\<in>set (descendants ns).
           \<not> matches ''text'' ''dummy-left'' e \<and> \<not> matches ''text'' ''dummy-right'' e"
  using assms
proof (induction ns)
  case Nil
  then show ?case by simp
next
  case (Cons n ns)
  have "\<forall>e\<in>set (props n # kids n).
          \<not> matches ''text'' ''dummy-left'' e \<and> \<not> matches ''text'' ''dummy-right'' e"
  proof (cases "isRowGroup n")
    case True
    from row_descendants [OF True] show ?thesis
      by (simp add: filter_empty_conv)
  next
    case False
    with Cons.prems have "isTitle n" by simp
    from title_descendants [OF this] show ?thesis by simp
  qed
  with Cons show ?case by auto
qed

lemma sizedRow_svg [simp]: "sizedRow b ((t::DoubleBar)\<lparr>svg := x\<rparr>) = sizedRow b t"
  by (simp add: sizedRow_def fun_eq_iff)

lemma sizedRow_shape:
  "nodeShape (sizedRow b t j (renderedRow b config i d)) = nodeShape (renderedRow b config i d)"
proof -
  have "sizedRow b t j (renderedRow b config i d)
      = projr (rowChain (sizingSteps b t) j (renderedRow b config i d))"
    by (simp add: sizedRow_def)
  then show ?thesis
    by (simp add: renderedRow_eq rowChain_def sizingSteps_def onProps_def onKids_def withDatum_def
      matches_def attr_def setText_def truncateElement_def nodeShape_def elemShape_def)
qed

lemma renderedRow_isRowGroup: "isRowGroup (renderedRow b config i d)"
  by (simp add: renderedRow_eq isRowGroup_def isRowKid_def)

lemma sizedRow_isRowGroup: "isRowGroup (sizedRow b t j (renderedRow b config i d))"
  using isRowGroup_shape [OF sizedRow_shape] renderedRow_isRowGroup by simp

lemma sizedRow_nid: "nid (sizedRow b t j (renderedRow b config i d)) = i"
  using sizedRow_shape [of b t j config i d] by (simp add: nodeShape_def renderedRow_eq)

lemma titles_isTitle:
  "isTitle (Node k leftTitleText [])" "isTitle (Node k rightTitleText [])"
  "matches ''text'' ''left-title'' leftTitleText" "\<not> matches ''text'' ''right-title'' leftTitleText"
  "matches ''text'' ''right-title'' rightTitleText" "\<not> matches ''text'' ''left-title'' rightTitleText"
  by (simp_all add: isTitle_def leftTitleText_def rightTitleText_def createElement_def attr_def
      setClass_def matches_def)


lemma update_cycle:
  assumes inv: "sceneInv s" and val: "validateInputs qr"
    and cd: "createChartData data config = Inr cd"
  shows "\<exists>s' v v'. updateAsync b s data el config qr = Inr (s', 1)
     \<and> sceneInv s' \<and> svg s = Some v \<and> svg s' = Some v'
     \<and> width s' = Num (real (clientWidth el)) \<and> height s' = Num (real (clientHeight el))
     \<and> maxBarLabelWidth s' = maxBarValueWidth b (rows cd)
     \<and> (\<exists>w\<ge>0. maxBarLabelWidth s' = Num w)
     \<and> leftBarWidth s' = \<lparr>lin_domain = (Num 0, maxOfBoth (rows cd)),
                            lin_range = (Num 1, halfGraphBarMaxWidth s')\<rparr>
     \<and> rightBarWidth s' = \<lparr>lin_domain = (Num 0, maxOfBoth (rows cd)),
                             lin_range = (Num 1, halfGraphBarMaxWidth s')\<rparr>
     \<and> rowYPosition s' = (rowYPosition s)
           \<lparr>band_domain := sequence (length (rows cd)),
            band_range := (Num 15, Num (real (clientHeight el))),
            band_paddingInner := 7 / 10, band_paddingOuter := 7 / 20\<rparr>
     \<and> filter isRowGroup (root_kids v')
           = map (\<lambda>(i, d). sizedRow b s' (i - nextId s) (renderedRow b config i d))
               (enumerate (nextId s) (rows cd))
     \<and> length (selectAll ''g'' ''chart-row'' v') = length (rows cd)
     \<and> length (selectAll ''text'' ''left-title'' v')
           = Suc (length (selectAll ''text'' ''left-title'' v))
     \<and> length (selectAll ''text'' ''right-title'' v')
           = Suc (length (selectAll ''text'' ''right-title'' v))"
proof -
  from inv obtain v where v: "svg s = Some v"
    and Q: "\<forall>n\<in>set (root_kids v). nid n < nextId s
          \<and> (case svgRows s of None \<Rightarrow> isTitle n
              | Some ids \<Rightarrow> if nid n \<in> set ids then isRowGroup n else isTitle n)"
    by (auto simp: sceneInv_def list_all_iff split: option.splits)
  have rt: "\<forall>n\<in>set (root_kids v). isRowGroup n \<or> isTitle n"
    using Q by (auto split: option.splits if_splits)
  define W where "W = real (clientWidth el)"
  define H where "H = real (clientHeight el)"
  define v2 where "v2 = v\<lparr>root_attrs :=
      (root_attrs v)(''width'' \<mapsto> ANum (Num W), ''height'' \<mapsto> ANum (Num H))\<rparr>"
  define s2 where "s2 = s\<lparr>width := Num W, height := Num H, svg := Some v2\<rparr>"
  define s3 where "s3 = setupInputs s2 cd"
  define tip where "tip = \<lparr>tip_class = ''d3-tooltip'', tip_offset = (Num 0, Num 0)\<rparr>"
  have kids2: "root_kids v2 = root_kids v"
    by (simp add: v2_def)
  have s3: "svg s3 = Some v2" "tooltip s3 = Some tip" "svgRows s3 = svgRows s"
    "nextId s3 = nextId s"
    by (simp_all add: s3_def s2_def setupInputs_def tip_def)
  obtain w where w: "0 \<le> w"
    "determineMaxBarValueWidth b s3 (rows cd) = Inr (s3\<lparr>maxBarLabelWidth := Num w\<rparr>)"
    "maxBarValueWidth b (rows cd) = Num w"
    using determineMaxBarValueWidth_ok [OF s3(1), of b "rows cd"] no_dummies [OF rt]
    by (auto simp: kids2)
  define s4 where "s4 = s3\<lparr>maxBarLabelWidth := Num w\<rparr>"
  have s4: "svg s4 = Some v2" "tooltip s4 = Some tip" "svgRows s4 = svgRows s"
    "nextId s4 = nextId s"
    by (simp_all add: s4_def s3)
  define ns0 where "ns0 = (case svgRows s of None \<Rightarrow> root_kids v
      | Some old \<Rightarrow> removeRows old (root_kids v))"
  have ns0_sub: "set ns0 \<subseteq> set (root_kids v)"
    by (auto simp: ns0_def removeRows_def split: option.splits)
  have ns0_titles: "list_all isTitle ns0"
    using Q by (auto simp: ns0_def removeRows_def list_all_iff split: option.splits)
  have ns0_fresh: "\<forall>n\<in>set ns0. nid n < nextId s"
    using Q ns0_sub by auto
  have ns0_count: "filter (matches ''text'' c) (descendants ns0)
      = filter (matches ''text'' c) (descendants (root_kids v))"
    if c: "c = ''left-title'' \<or> c = ''right-title''" for c
  proof (cases "svgRows s")
    case None
    then show ?thesis by (simp add: ns0_def)
  next
    case (Some old)
    have "filter (matches ''text'' c) (descendants (filter (\<lambda>n. nid n \<notin> set old) (root_kids v)))
        = filter (matches ''text'' c) (descendants (root_kids v))"
    proof (rule filter_descendants_removed)
      fix n assume "n \<in> set (root_kids v)" "\<not> nid n \<notin> set old"
      with Q Some have "isRowGroup n" by auto
      from row_descendants [OF this] c
      show "\<not> matches ''text'' c (props n) \<and> filter (matches ''text'' c) (kids n) = []"
        by auto
    qed
    with Some show ?thesis by (simp add: ns0_def removeRows_def)
  qed
  define k where "k = nextId s"
  define n where "n = length (rows cd)"
  define post where "post = [Node (k + n) leftTitleText [], Node (Suc (k + n)) rightTitleText []]"
  define v5 where "v5 = v2\<lparr>root_kids :=
      (ns0 @ map (\<lambda>(i, d). renderedRow b config i d) (enumerate k (rows cd))) @ post\<rparr>"
  define s5 where "s5 = s4\<lparr>svgRows := Some [k..<k + n], svg := Some v5,
      nextId := Suc (Suc (k + n))\<rparr>"
  have r5: "setupRender b s4 cd config = Inr s5"
  proof -
    have "ns0 = (case svgRows s4 of None \<Rightarrow> root_kids v2
        | Some old \<Rightarrow> removeRows old (root_kids v2))"
      by (simp add: ns0_def s4 kids2 cong: option.case_cong)
    moreover have "\<forall>e\<in>set (descendants ns0). \<not> matches ''g'' ''chart-row'' e"
      using count_titles [OF ns0_titles] by (simp add: filter_empty_conv)
    moreover have "\<forall>n\<in>set ns0. nid n < nextId s4"
      using ns0_fresh by (simp add: s4)
    ultimately show ?thesis
      using setupRender_ok [OF s4(1) s4(2), of ns0 b cd config]
      by (simp add: s5_def v5_def post_def k_def n_def s4)
  qed
  have s5: "svg s5 = Some v5" "tooltip s5 = Some tip" "svgRows s5 = Some [k..<k + length (rows cd)]"
    by (simp_all add: s5_def s4 n_def)
  define cr where "cr = configureRanges s5 tip"
  define L where "L = ns0 @ map (\<lambda>(i, d). sizedRow b cr (i - k) (renderedRow b config i d))
      (enumerate k (rows cd)) @ post"
  define v' where "v' = v5\<lparr>root_kids := sizeTitles b cr cd L\<rparr>"
  define s' where "s' = cr\<lparr>svg := Some v'\<rparr>"
  have r6: "setupSizing b s5 cd = Inr s'"
  proof -
    have "root_kids v5 = (ns0 @ map (\<lambda>(i, d). renderedRow b config i d) (enumerate k (rows cd))) @ post"
      by (simp add: v5_def)
    moreover have "\<forall>n\<in>set ns0. nid n < k"
      using ns0_fresh by (simp add: k_def)
    moreover have "\<forall>m\<in>set post. k + length (rows cd) \<le> nid m"
      by (simp add: post_def n_def)
    ultimately show ?thesis
      using setupSizing_ok [OF s5, of ns0 b config post cd]
      by (simp add: s'_def v'_def L_def cr_def)
  qed
  have "updateAsync b s data el config qr =
      andThen (createChartData data config) (\<lambda>chartData.
        andThen (determineMaxBarValueWidth b (setupInputs s2 chartData) (rows chartData)) (\<lambda>this4.
        andThen (setupRender b this4 chartData config) (\<lambda>this5.
        andThen (setupSizing b this5 chartData) (\<lambda>this6. Inr (this6, 1)))))"
    unfolding updateAsync_def using val v
    by (simp add: Let_def s2_def v2_def W_def H_def)
  also have "\<dots> = andThen (determineMaxBarValueWidth b s3 (rows cd)) (\<lambda>this4.
        andThen (setupRender b this4 cd config) (\<lambda>this5.
        andThen (setupSizing b this5 cd) (\<lambda>this6. Inr (this6, 1))))"
    by (simp only: cd andThen_Inr s3_def)
  also have "\<dots> = andThen (setupRender b s4 cd config) (\<lambda>this5.
        andThen (setupSizing b this5 cd) (\<lambda>this6. Inr (this6, 1)))"
    by (simp only: w(2) andThen_Inr s4_def)
  also have "\<dots> = Inr (s', 1)"
    by (simp only: r5 r6 andThen_Inr)
  finally have run: "updateAsync b s data el config qr = Inr (s', 1)" .
  have fields: "width s' = Num W" "height s' = Num H" "maxBarLabelWidth s' = Num w"
    "lin_domain (leftBarWidth s') = (Num 0, maxOfBoth (rows cd))"
    "lin_domain (rightBarWidth s') = (Num 0, maxOfBoth (rows cd))"
    "svgRows s' = Some [k..<k + n]" "nextId s' = Suc (Suc (k + n))" "svg s' = Some v'"
    by (simp_all add: s'_def cr_def configureRanges_def s5_def s4_def s3_def s2_def
        setupInputs_def)
  have hg: "halfGraphBarMaxWidth s' = halfGraphBarMaxWidth s5"
    by (simp add: s'_def cr_def configureRanges_def halfGraphBarMaxWidth_def halfGraphWidth_def
        graphWidth_def)
  have lin: "leftBarWidth s' = \<lparr>lin_domain = (Num 0, maxOfBoth (rows cd)),
                                lin_range = (Num 1, halfGraphBarMaxWidth s')\<rparr>"
    "rightBarWidth s' = \<lparr>lin_domain = (Num 0, maxOfBoth (rows cd)),
                          lin_range = (Num 1, halfGraphBarMaxWidth s')\<rparr>"
    unfolding hg
    by (simp_all add: s'_def cr_def configureRanges_def s5_def s4_def s3_def s2_def
        setupInputs_def)
  have band: "rowYPosition s' = (rowYPosition s)
           \<lparr>band_domain := sequence (length (rows cd)),
            band_range := (Num 15, Num H),
            band_paddingInner := 7 / 10, band_paddingOuter := 7 / 20\<rparr>"
    by (simp add: s'_def cr_def configureRanges_def s5_def s4_def s3_def s2_def
        setupInputs_def paddingInner_def paddingOuter_def)
  have sized_eq: "sizedRow b cr = sizedRow b s'"
    by (simp add: s'_def)
  have Lrows: "filter isRowGroup L
      = map (\<lambda>(i, d). sizedRow b cr (i - k) (renderedRow b config i d)) (enumerate k (rows cd))"
  proof -
    have "filter isRowGroup ns0 = []"
      using ns0_titles title_descendants(5) by (auto simp: filter_empty_conv list_all_iff)
    moreover have "filter isRowGroup post = []"
      using titles_isTitle(1,2) title_descendants(5) by (simp add: post_def)
    moreover have "filter isRowGroup
        (map (\<lambda>(i, d). sizedRow b cr (i - k) (renderedRow b config i d)) (enumerate k (rows cd)))
        = map (\<lambda>(i, d). sizedRow b cr (i - k) (renderedRow b config i d)) (enumerate k (rows cd))"
      by (rule filter_True) (auto simp: sizedRow_isRowGroup)
    ultimately show ?thesis by (simp add: L_def)
  qed
  have rows': "filter isRowGroup (root_kids v')
      = map (\<lambda>(i, d). sizedRow b s' (i - nextId s) (renderedRow b config i d))
          (enumerate (nextId s) (rows cd))"
    by (simp add: v'_def sizeTitles_rows Lrows sized_eq k_def)
  have shape: "map nodeShape (root_kids v') = map nodeShape L"
    by (simp add: v'_def sizeTitles_shape)
  have rowsL: "list_all isRowGroup
      (map (\<lambda>(i, d). sizedRow b cr (i - k) (renderedRow b config i d)) (enumerate k (rows cd)))"
    by (auto simp: list_all_iff sizedRow_isRowGroup)
  have cnt: "length (filter (matches tg cls) (descendants (root_kids v')))
      = length (filter (matches tg cls) (descendants L))" for tg cls
    by (rule count_shape [OF shape])
  have c1: "length (selectAll ''g'' ''chart-row'' v') = length (rows cd)"
    using count_titles [OF ns0_titles] count_rows [OF rowsL] titles_isTitle
    by (simp add: selectAll_def cnt L_def descendants_append post_def matches_def
        leftTitleText_def rightTitleText_def createElement_def attr_def setClass_def)
  have c2: "length (selectAll ''text'' ''left-title'' v')
      = Suc (length (selectAll ''text'' ''left-title'' v))"
    using ns0_count [of "''left-title''"] count_rows [OF rowsL] titles_isTitle
    by (simp add: selectAll_def cnt L_def descendants_append post_def)
  have c3: "length (selectAll ''text'' ''right-title'' v')
      = Suc (length (selectAll ''text'' ''right-title'' v))"
    using ns0_count [of "''right-title''"] count_rows [OF rowsL] titles_isTitle
    by (simp add: selectAll_def cnt L_def descendants_append post_def)
  have inv': "sceneInv s'"
  proof -
    let ?Q = "\<lambda>m. nid m < Suc (Suc (k + n))
        \<and> (if nid m \<in> set [k..<k + n] then isRowGroup m else isTitle m)"
    have "list_all ?Q (root_kids v') = list_all ?Q L"
    proof (rule list_all_nodeShape [OF _ shape])
      fix m m' assume sh: "nodeShape m = nodeShape m'"
      then have "nid m = nid m'" by (simp add: nodeShape_def)
      with isRowGroup_shape [OF sh] isTitle_shape [OF sh] show "?Q m = ?Q m'" by simp
    qed
    moreover have "list_all ?Q ns0"
      using ns0_titles ns0_fresh by (auto simp: list_all_iff k_def)
    moreover have "list_all ?Q
        (map (\<lambda>(i, d). sizedRow b cr (i - k) (renderedRow b config i d)) (enumerate k (rows cd)))"
      by (auto simp: list_all_iff sizedRow_isRowGroup sizedRow_nid in_set_enumerate_eq n_def)
    moreover have "list_all ?Q post"
      using titles_isTitle(1,2) by (simp add: post_def)
    ultimately have "list_all ?Q (root_kids v')"
      by (simp add: L_def)
    then show ?thesis
      by (simp add: sceneInv_def fields)
  qed
  have probe: "maxBarLabelWidth s' = maxBarValueWidth b (rows cd)"
    by (simp add: fields(3) w(3))
  from run inv' v fields(8) fields(1,2) probe w(1) fields(3) lin band rows' c1 c2 c3
  show ?thesis
    unfolding W_def H_def by blast
qed

lemma truncateElement_fields [simp]:
  "tagName (truncateElement b w e) = tagName e"
  "classes (truncateElement b w e) = classes e"
  "attrs (truncateElement b w e) = attrs e"
  "datum (truncateElement b w e) = datum e"
  "listeners (truncateElement b w e) = listeners e"
  by (simp_all add: truncateElement_def)

lemma sizedRow_kids:
  "kids (sizedRow b t j (renderedRow b config i d)) =
     [\<lparr>tagName = ''rect'', classes = [''row-highlight''],
       attrs = [''x'' \<mapsto> ANum (Num 0), ''rx'' \<mapsto> ANum (Num 5), ''ry'' \<mapsto> ANum (Num 5),
                ''fill-opacity'' \<mapsto> ANum (Num (1 / 2)), ''width'' \<mapsto> ANum (width t),
                ''height'' \<mapsto> ANum (rowHighlightThickness t),
                ''y'' \<mapsto> ANum (js_div (js_sub (rowHeight t) (rowHighlightThickness t)) (Num 2))],
       textContent = [], datum = Some d, listeners = []\<rparr>,
      truncateElement b (legendTextWidth t)
        \<lparr>tagName = ''text'', classes = [''legend-text''],
         attrs = [''dy'' \<mapsto> AStr ''.35em'', ''fill'' \<mapsto> AStr ''#000'',
                  ''font-family'' \<mapsto> AStr ''sans-serif'', ''font-size'' \<mapsto> ANum (Num 11),
                  ''x'' \<mapsto> ANum (Num 8), ''y'' \<mapsto> ANum (js_div (rowHeight t) (Num 2))],
         textContent = name d, datum = Some d, listeners = []\<rparr>,
      \<lparr>tagName = ''text'', classes = [''left-value''],
       attrs = [''dy'' \<mapsto> AStr ''.35em'', ''text-anchor'' \<mapsto> AStr ''end'',
                ''font-family'' \<mapsto> AStr ''sans-serif'', ''font-size'' \<mapsto> ANum (Num 12),
                ''fill'' \<mapsto> AStr ''#888888'',
                ''x'' \<mapsto> ANum (js_sub (js_sub (barOriginX t)
                          (linear_apply (leftBarWidth t) (Num (left d)))) (Num 5)),
                ''y'' \<mapsto> ANum (js_div (rowHeight t) (Num 2))],
       textContent = numberToString b (left d), datum = Some d, listeners = []\<rparr>,
      \<lparr>tagName = ''text'', classes = [''right-value''],
       attrs = [''dy'' \<mapsto> AStr ''.35em'', ''font-family'' \<mapsto> AStr ''sans-serif'',
                ''font-size'' \<mapsto> ANum (Num 12), ''fill'' \<mapsto> AStr ''#888888'',
                ''x'' \<mapsto> ANum (js_add (js_add (barOriginX t)
                          (linear_apply (rightBarWidth t) (Num (right d)))) (Num 5)),
                ''y'' \<mapsto> ANum (js_div (rowHeight t) (Num 2))],
       textContent = numberToString b (right d), datum = Some d, listeners = []\<rparr>,
      \<lparr>tagName = ''rect'', classes = [''left-bar''],
       attrs = [''fill'' \<mapsto> AStr (barColor (leftColor config) leftColor_default),
                ''x'' \<mapsto> ANum (js_sub (barOriginX t)
                          (linear_apply (leftBarWidth t) (Num (left d)))),
                ''y'' \<mapsto> ANum (barMargin t),
                ''width'' \<mapsto> ANum (linear_apply (leftBarWidth t) (Num (left d))),
                ''height'' \<mapsto> ANum (barHeight t)],
       textContent = [], datum = Some d, listeners = []\<rparr>,
      \<lparr>tagName = ''rect'', classes = [''right-bar''],
       attrs = [''fill'' \<mapsto> AStr (barColor (rightColor config) rightColor_default),
                ''x'' \<mapsto> ANum (barOriginX t), ''y'' \<mapsto> ANum (barMargin t),
                ''width'' \<mapsto> ANum (linear_apply (rightBarWidth t) (Num (right d))),
                ''height'' \<mapsto> ANum (barHeight t)],
       textContent = [], datum = Some d, listeners = []\<rparr>]"
  unfolding sizedRow_def
  by (simp add: renderedRow_eq rowChain_def sizingSteps_def onProps_def onKids_def withDatum_def
      matches_def attr_def setText_def rowLeftSelector_def rowRightSelector_def
      rowNameSelector_def)

lemma sizedRow_datum: "datum (props (sizedRow b t j (renderedRow b config i d))) = Some d"
  unfolding sizedRow_def
  by (simp add: renderedRow_eq rowChain_def sizingSteps_def onProps_def onKids_def withDatum_def
      matches_def attr_def setText_def)

lemma sizedRow_select:
  "filter (matches ''text'' ''left-value'') (kids (sizedRow b t j (renderedRow b config i d)))
     = [kids (sizedRow b t j (renderedRow b config i d)) ! 2]"
  "filter (matches ''text'' ''right-value'') (kids (sizedRow b t j (renderedRow b config i d)))
     = [kids (sizedRow b t j (renderedRow b config i d)) ! 3]"
  "filter (matches ''rect'' ''left-bar'') (kids (sizedRow b t j (renderedRow b config i d)))
     = [kids (sizedRow b t j (renderedRow b config i d)) ! 4]"
  "filter (matches ''rect'' ''right-bar'') (kids (sizedRow b t j (renderedRow b config i d)))
     = [kids (sizedRow b t j (renderedRow b config i d)) ! 5]"
  by (simp_all add: sizedRow_kids matches_def)

lemma select_groups:
  "\<forall>n\<in>set ns. isRowGroup n \<or> isTitle n \<Longrightarrow>
   filter (matches ''g'' ''chart-row'') (descendants ns) = map props (filter isRowGroup ns)"
proof (induction ns)
  case Nil
  then show ?case by simp
next
  case (Cons n ns)
  show ?case
  proof (cases "isRowGroup n")
    case True
    from row_descendants [OF True] True Cons show ?thesis by simp
  next
    case False
    with Cons.prems have "isTitle n" by simp
    from title_descendants [OF this] False Cons show ?thesis by simp
  qed
qed

lemma select_in_rows:
  assumes "\<forall>n\<in>set ns. isRowGroup n \<or> isTitle n"
    and "tg \<noteq> ''g''" "cls \<notin> {''left-title'', ''right-title'', ''title''}"
  shows "filter (matches tg cls) (descendants ns)
     = concat (map (\<lambda>n. filter (matches tg cls) (kids n)) (filter isRowGroup ns))"
  using assms(1)
proof (induction ns)
  case Nil
  then show ?case by simp
next
  case (Cons n ns)
  show ?case
  proof (cases "isRowGroup n")
    case True
    then have "\<not> matches tg cls (props n)"
      using assms(2) by (simp add: isRowGroup_def matches_def)
    with True Cons show ?thesis by simp
  next
    case False
    with Cons.prems have t: "isTitle n" by simp
    then have "\<not> matches tg cls (props n)" "kids n = []"
      using assms(3) by (auto simp: isTitle_def matches_def)
    with False Cons show ?thesis by simp
  qed
qed

lemma sceneInv_nodes:
  "sceneInv s \<Longrightarrow> svg s = Some v \<Longrightarrow> \<forall>n\<in>set (root_kids v). isRowGroup n \<or> isTitle n"
  by (auto simp: sceneInv_def list_all_iff split: option.splits if_splits)

lemma concat_map_enumerate:
  "concat (map (\<lambda>(i, d). [f d]) (enumerate k xs)) = map f xs"
  by (induction xs arbitrary: k) simp_all

lemma sceneInv_create: "sceneInv (create s)"
  by (simp add: sceneInv_def create_def)

section \<open>The update cycle: what it leaves\<close>

lemma sample_chart: "createChartData sampleData sampleConfig = Inr sampleChart"
  by (simp add: createChartData_def sampleData_def sampleConfig_def sampleChart_def sampleRows_def
      chartRow_def lit_def)

lemma sample_valid: "validateInputs sampleResponse"
  by (simp add: validateInputs_def handleErrors_def sampleResponse_def sampleConfig_def)

lemma updateAsync_calls:
  "updateAsync b s data el config qr = Inr (s', k) \<Longrightarrow> k = (if validateInputs qr then 1 else 0)"
  by (auto simp: updateAsync_def Let_def andThen_eq_Inr split: if_splits option.splits)

lemma updateAsync_chart:
  "validateInputs qr \<Longrightarrow> updateAsync b s data el config qr = Inr r \<Longrightarrow>
   \<exists>cd. createChartData data config = Inr cd"
  by (auto simp: updateAsync_def Let_def andThen_eq_Inr split: if_splits option.splits)

text \<open>
  C1 (amended). When the validation fails, \<open>updateAsync\<close> returns at once: it leaves
  the state as it is and does not call the completion callback. When the
  validation passes, and the chart data can be built on a scene that the chart
  has made, the cycle runs to its end and calls the callback once. In every call
  that returns, the number of calls of the callback is 1 when the validation
  passed and 0 when it failed.
\<close>

theorem doneRendering_calls:
  "(\<not> validateInputs qr \<longrightarrow> updateAsync b s data el config qr = Inr (s, 0))
   \<and> (validateInputs qr \<and> sceneInv s \<and> createChartData data config = Inr cd \<longrightarrow>
        (\<exists>s'. updateAsync b s data el config qr = Inr (s', 1)))
   \<and> (updateAsync b s data el config qr = Inr (s', k) \<longrightarrow>
        k = (if validateInputs qr then 1 else 0))"
proof (intro conjI impI)
  assume "\<not> validateInputs qr"
  then show "updateAsync b s data el config qr = Inr (s, 0)"
    by (simp add: updateAsync_def)
next
  assume "validateInputs qr \<and> sceneInv s \<and> createChartData data config = Inr cd"
  then show "\<exists>s'. updateAsync b s data el config qr = Inr (s', 1)"
    using update_cycle [of s qr data config cd b el] by blast
next
  assume "updateAsync b s data el config qr = Inr (s', k)"
  then show "k = (if validateInputs qr then 1 else 0)"
    by (rule updateAsync_calls)
qed

theorem doneRendering_calls_witness:
  "\<not> validateInputs twoDimensions
   \<and> updateAsync sampleBrowser (create vis) sampleData sampleElement sampleConfig twoDimensions
       = Inr (create vis, 0)
   \<and> validateInputs sampleResponse \<and> sceneInv (create vis)
   \<and> createChartData sampleData sampleConfig = Inr sampleChart
   \<and> (\<exists>s'. updateAsync sampleBrowser (create vis) sampleData sampleElement sampleConfig
              sampleResponse = Inr (s', 1))"
proof -
  have 1: "\<not> validateInputs twoDimensions"
    by (simp add: validateInputs_def handleErrors_def twoDimensions_def)
  from 1 doneRendering_calls [of twoDimensions sampleBrowser "create vis" sampleData sampleElement
      sampleConfig]
  have 2: "updateAsync sampleBrowser (create vis) sampleData sampleElement sampleConfig
      twoDimensions = Inr (create vis, 0)"
    by blast
  from sample_valid sceneInv_create sample_chart
    doneRendering_calls [of sampleResponse sampleBrowser "create vis" sampleData sampleElement
      sampleConfig sampleChart]
  have 3: "\<exists>s'. updateAsync sampleBrowser (create vis) sampleData sampleElement sampleConfig
      sampleResponse = Inr (s', 1)"
    by blast
  from 1 2 3 sample_valid sceneInv_create sample_chart show ?thesis by blast
qed

text \<open>
  C1 as stated fails: for query metadata with two dimensions the update returns
  without a call of the completion callback.
\<close>

theorem doneRendering_counterexample:
  "updateAsync sampleBrowser (create vis) sampleData sampleElement sampleConfig twoDimensions
     = Inr (create vis, 0)"
  by (simp add: updateAsync_def validateInputs_def handleErrors_def twoDimensions_def)

text \<open>
  C7. After every cycle that passes the validation, whatever the number of rows
  and the height of the container, the row height (the step of the row scale),
  the bar height (its bandwidth) and the bar margin are numbers with a bar margin
  of at least 0 and a bar height of at most the row height.
\<close>

theorem row_geometry:
  "validateInputs qr \<and> sceneInv s \<and> createChartData data config = Inr cd \<longrightarrow>
     (\<exists>s' rh bh bm. updateAsync b s data el config qr = Inr (s', 1)
        \<and> rowHeight s' = Num rh \<and> barHeight s' = Num bh \<and> barMargin s' = Num bm
        \<and> 0 \<le> bm \<and> bh \<le> rh)"
proof
  assume a: "validateInputs qr \<and> sceneInv s \<and> createChartData data config = Inr cd"
  with update_cycle [of s qr data config cd b el]
  obtain s' where s': "updateAsync b s data el config qr = Inr (s', 1)"
    "rowYPosition s' = (rowYPosition s)
           \<lparr>band_domain := sequence (length (rows cd)),
            band_range := (Num 15, Num (real (clientHeight el))),
            band_paddingInner := 7 / 10, band_paddingOuter := 7 / 20\<rparr>"
    by blast
  have "\<exists>st. step (rowYPosition s') = Num st \<and> 0 \<le> st
           \<and> bandwidth (rowYPosition s') = Num (st * (1 - band_paddingInner (rowYPosition s')))
           \<and> st * (1 - band_paddingInner (rowYPosition s')) \<le> st"
    by (rule band_geometry [of _ 15 "real (clientHeight el)"]) (simp_all add: s'(2))
  then obtain st where st: "step (rowYPosition s') = Num st" "0 \<le> st"
    "bandwidth (rowYPosition s') = Num (st * (1 - band_paddingInner (rowYPosition s')))"
    "st * (1 - band_paddingInner (rowYPosition s')) \<le> st"
    by blast
  let ?bh = "st * (1 - band_paddingInner (rowYPosition s'))"
  have "rowHeight s' = Num st" "barHeight s' = Num ?bh" "barMargin s' = Num ((st - ?bh) / 2)"
    by (simp_all add: rowHeight_def barHeight_def barMargin_def st)
  moreover have "0 \<le> (st - ?bh) / 2" using st(4) by simp
  ultimately show "\<exists>s' rh bh bm. updateAsync b s data el config qr = Inr (s', 1)
        \<and> rowHeight s' = Num rh \<and> barHeight s' = Num bh \<and> barMargin s' = Num bm
        \<and> 0 \<le> bm \<and> bh \<le> rh"
    using s'(1) st(4) by blast
qed

theorem row_geometry_witness:
  "validateInputs sampleResponse \<and> sceneInv (create vis)
   \<and> createChartData sampleData sampleConfig = Inr sampleChart
   \<and> (\<exists>s' rh bh bm. updateAsync sampleBrowser (create vis) sampleData sampleElement sampleConfig
          sampleResponse = Inr (s', 1)
        \<and> rowHeight s' = Num rh \<and> barHeight s' = Num bh \<and> barMargin s' = Num bm
        \<and> 0 \<le> bm \<and> bh \<le> rh)"
  using row_geometry [of sampleResponse "create vis" sampleData sampleConfig sampleChart
      sampleBrowser sampleElement] sample_valid sceneInv_create sample_chart
  by blast

lemma map_enumerate_snd: "map (\<lambda>x. g (snd x)) (enumerate k xs) = map g xs"
  by (induction xs arbitrary: k) simp_all

lemma select_sized:
  assumes "sceneInv s'" "svg s' = Some v'"
    and rows: "filter isRowGroup (root_kids v')
           = map (\<lambda>(i, d). sizedRow b t (i - k) (renderedRow b config i d)) (enumerate k rs)"
  shows "map f (selectAll ''text'' ''left-value'' v')
           = map (\<lambda>d. f (kids (sizedRow b t 0 (renderedRow b config 0 d)) ! 2)) rs"
    and "map f (selectAll ''text'' ''right-value'' v')
           = map (\<lambda>d. f (kids (sizedRow b t 0 (renderedRow b config 0 d)) ! 3)) rs"
    and "map f (selectAll ''rect'' ''left-bar'' v')
           = map (\<lambda>d. f (kids (sizedRow b t 0 (renderedRow b config 0 d)) ! 4)) rs"
    and "map f (selectAll ''rect'' ''right-bar'' v')
           = map (\<lambda>d. f (kids (sizedRow b t 0 (renderedRow b config 0 d)) ! 5)) rs"
    and "map datum (selectAll ''g'' ''chart-row'' v') = map Some rs"
proof -
  note nodes = sceneInv_nodes [OF assms(1,2)]
  define K where "K d = kids (sizedRow b t 0 (renderedRow b config 0 d))" for d
  have kid: "kids (sizedRow b t j (renderedRow b config i d)) = K d" for i j d
    unfolding K_def by (simp only: sizedRow_kids)
  have sel: "map f (selectAll tg cls v') = map (\<lambda>d. f (K d ! m)) rs"
    if tg: "tg \<noteq> ''g''" and cls: "cls \<notin> {''left-title'', ''right-title'', ''title''}"
      and one: "\<And>i j d. filter (matches tg cls) (kids (sizedRow b t j (renderedRow b config i d)))
          = [kids (sizedRow b t j (renderedRow b config i d)) ! m]"
    for tg cls m
  proof -
    have one': "filter (matches tg cls) (K d) = [K d ! m]" for d
      using one [of 0 0 d] by (simp only: kid)
    have "selectAll tg cls v'
        = concat (map (\<lambda>n. filter (matches tg cls) (kids n)) (filter isRowGroup (root_kids v')))"
      unfolding selectAll_def by (rule select_in_rows [OF nodes tg cls])
    also have "\<dots> = map (\<lambda>d. K d ! m) rs"
      using map_enumerate_snd [of "\<lambda>d. K d ! m" k rs]
      by (simp add: rows o_def case_prod_beta kid one')
    finally show ?thesis by (simp add: o_def)
  qed
  show "map f (selectAll ''text'' ''left-value'' v')
      = map (\<lambda>d. f (kids (sizedRow b t 0 (renderedRow b config 0 d)) ! 2)) rs"
    unfolding K_def [symmetric] by (rule sel) (simp_all add: sizedRow_select)
  show "map f (selectAll ''text'' ''right-value'' v')
      = map (\<lambda>d. f (kids (sizedRow b t 0 (renderedRow b config 0 d)) ! 3)) rs"
    unfolding K_def [symmetric] by (rule sel) (simp_all add: sizedRow_select)
  show "map f (selectAll ''rect'' ''left-bar'' v')
      = map (\<lambda>d. f (kids (sizedRow b t 0 (renderedRow b config 0 d)) ! 4)) rs"
    unfolding K_def [symmetric] by (rule sel) (simp_all add: sizedRow_select)
  show "map f (selectAll ''rect'' ''right-bar'' v')
      = map (\<lambda>d. f (kids (sizedRow b t 0 (renderedRow b config 0 d)) ! 5)) rs"
    unfolding K_def [symmetric] by (rule sel) (simp_all add: sizedRow_select)
  show "map datum (selectAll ''g'' ''chart-row'' v') = map Some rs"
    using map_enumerate_snd [of Some k rs]
    by (simp add: selectAll_def select_groups [OF nodes] rows o_def case_prod_beta sizedRow_datum)
qed

lemma nth_kids [simp]:
  "(x0 # x1 # x2 # xs) ! 2 = x2"
  "(x0 # x1 # x2 # x3 # xs) ! 3 = x3"
  "(x0 # x1 # x2 # x3 # x4 # xs) ! 4 = x4"
  "(x0 # x1 # x2 # x3 # x4 # x5 # xs) ! 5 = x5"
  by (simp_all add: numeral_2_eq_2 numeral_3_eq_3 eval_nat_numeral)

lemma cycle_labels:
  assumes "validateInputs qr" "sceneInv s" "createChartData data config = Inr cd"
  shows "\<exists>s' v'. updateAsync b s data el config qr = Inr (s', 1) \<and> svg s' = Some v'
     \<and> width s' = Num (real (clientWidth el))
     \<and> maxBarLabelWidth s' = maxBarValueWidth b (rows cd)
     \<and> (\<exists>w\<ge>0. maxBarLabelWidth s' = Num w)
     \<and> lin_domain (leftBarWidth s') = (Num 0, maxOfBoth (rows cd))
     \<and> lin_range (leftBarWidth s') = (Num 1, halfGraphBarMaxWidth s')
     \<and> lin_domain (rightBarWidth s') = (Num 0, maxOfBoth (rows cd))
     \<and> lin_range (rightBarWidth s') = (Num 1, halfGraphBarMaxWidth s')
     \<and> map datum (selectAll ''g'' ''chart-row'' v') = map Some (rows cd)
     \<and> map (\<lambda>e. (attrs e ''text-anchor'', attrs e ''x'')) (selectAll ''text'' ''left-value'' v')
         = map (\<lambda>r. (Some (AStr ''end''),
                       Some (ANum (js_sub (js_sub (barOriginX s')
                          (linear_apply (leftBarWidth s') (Num (left r)))) (Num 5)))))
             (rows cd)
     \<and> map (\<lambda>e. (attrs e ''text-anchor'', attrs e ''x'')) (selectAll ''text'' ''right-value'' v')
         = map (\<lambda>r. (None,
                       Some (ANum (js_add (js_add (barOriginX s')
                          (linear_apply (rightBarWidth s') (Num (right r)))) (Num 5)))))
             (rows cd)
     \<and> map (\<lambda>e. (attrs e ''x'', attrs e ''width'')) (selectAll ''rect'' ''left-bar'' v')
         = map (\<lambda>r. (Some (ANum (js_sub (barOriginX s')
                          (linear_apply (leftBarWidth s') (Num (left r))))),
                       Some (ANum (linear_apply (leftBarWidth s') (Num (left r))))))
             (rows cd)
     \<and> map (\<lambda>e. (attrs e ''x'', attrs e ''width'')) (selectAll ''rect'' ''right-bar'' v')
         = map (\<lambda>r. (Some (ANum (barOriginX s')),
                       Some (ANum (linear_apply (rightBarWidth s') (Num (right r))))))
             (rows cd)"
proof -
  from update_cycle [OF assms(2,1,3), of b el]
  obtain s' v' where c: "updateAsync b s data el config qr = Inr (s', 1)"
    "sceneInv s'" "svg s' = Some v'" "width s' = Num (real (clientWidth el))"
    "maxBarLabelWidth s' = maxBarValueWidth b (rows cd)"
    "\<exists>w\<ge>0. maxBarLabelWidth s' = Num w"
    "leftBarWidth s' = \<lparr>lin_domain = (Num 0, maxOfBoth (rows cd)),
                            lin_range = (Num 1, halfGraphBarMaxWidth s')\<rparr>"
    "rightBarWidth s' = \<lparr>lin_domain = (Num 0, maxOfBoth (rows cd)),
                             lin_range = (Num 1, halfGraphBarMaxWidth s')\<rparr>"
    "filter isRowGroup (root_kids v')
           = map (\<lambda>(i, d). sizedRow b s' (i - nextId s) (renderedRow b config i d))
               (enumerate (nextId s) (rows cd))"
    by blast
  note sel = select_sized [OF c(2,3,9)]
  have d1: "lin_domain (leftBarWidth s') = (Num 0, maxOfBoth (rows cd))"
    "lin_range (leftBarWidth s') = (Num 1, halfGraphBarMaxWidth s')"
    by (simp_all add: c(7))
  have d2: "lin_domain (rightBarWidth s') = (Num 0, maxOfBoth (rows cd))"
    "lin_range (rightBarWidth s') = (Num 1, halfGraphBarMaxWidth s')"
    by (simp_all add: c(8))
  have l: "map (\<lambda>e. (attrs e ''text-anchor'', attrs e ''x'')) (selectAll ''text'' ''left-value'' v')
         = map (\<lambda>r. (Some (AStr ''end''),
                       Some (ANum (js_sub (js_sub (barOriginX s')
                          (linear_apply (leftBarWidth s') (Num (left r)))) (Num 5)))))
             (rows cd)"
    unfolding sel(1) by (simp add: sizedRow_kids)
  have r: "map (\<lambda>e. (attrs e ''text-anchor'', attrs e ''x'')) (selectAll ''text'' ''right-value'' v')
         = map (\<lambda>r. (None,
                       Some (ANum (js_add (js_add (barOriginX s')
                          (linear_apply (rightBarWidth s') (Num (right r)))) (Num 5)))))
             (rows cd)"
    unfolding sel(2) by (simp add: sizedRow_kids)
  have lb: "map (\<lambda>e. (attrs e ''x'', attrs e ''width'')) (selectAll ''rect'' ''left-bar'' v')
         = map (\<lambda>r. (Some (ANum (js_sub (barOriginX s')
                          (linear_apply (leftBarWidth s') (Num (left r))))),
                       Some (ANum (linear_apply (leftBarWidth s') (Num (left r))))))
             (rows cd)"
    unfolding sel(3) by (simp add: sizedRow_kids)
  have rb: "map (\<lambda>e. (attrs e ''x'', attrs e ''width'')) (selectAll ''rect'' ''right-bar'' v')
         = map (\<lambda>r. (Some (ANum (barOriginX s')),
                       Some (ANum (linear_apply (rightBarWidth s') (Num (right r))))))
             (rows cd)"
    unfolding sel(4) by (simp add: sizedRow_kids)
  from c(1,3,4,5,6) d1 d2 sel(5) l r lb rb show ?thesis by blast
qed

lemma stateOf_Inr [simp]: "stateOf (Inr (s, k)) = s"
  by (simp add: stateOf_def)

text \<open>
  C4 (amended). After a cycle, the left value labels are right-aligned
  (\<open>text-anchor\<close> is \<open>end\<close>) and the label of a row ends 5 pixels to the left of the
  outer end of its left bar, at \<open>barOriginX - leftBarWidth(left) - 5\<close>; the right
  value labels have no \<open>text-anchor\<close> (they are left-aligned) and the label of a
  row starts 5 pixels to the right of the outer end of its right bar, at
  \<open>barOriginX + rightBarWidth(right) + 5\<close>. The left bar of a row spans from
  \<open>barOriginX - leftBarWidth(left)\<close> to \<open>barOriginX\<close>, the right bar from \<open>barOriginX\<close>
  on.
\<close>

theorem value_labels:
  "validateInputs qr \<and> sceneInv s \<and> createChartData data config = Inr cd \<longrightarrow>
   (\<exists>s' v'. updateAsync b s data el config qr = Inr (s', 1) \<and> svg s' = Some v'
     \<and> map (\<lambda>e. (attrs e ''text-anchor'', attrs e ''x'')) (selectAll ''text'' ''left-value'' v')
         = map (\<lambda>r. (Some (AStr ''end''),
                       Some (ANum (js_sub (js_sub (barOriginX s')
                          (linear_apply (leftBarWidth s') (Num (left r)))) (Num 5)))))
             (rows cd)
     \<and> map (\<lambda>e. (attrs e ''text-anchor'', attrs e ''x'')) (selectAll ''text'' ''right-value'' v')
         = map (\<lambda>r. (None,
                       Some (ANum (js_add (js_add (barOriginX s')
                          (linear_apply (rightBarWidth s') (Num (right r)))) (Num 5)))))
             (rows cd)
     \<and> map (\<lambda>e. (attrs e ''x'', attrs e ''width'')) (selectAll ''rect'' ''left-bar'' v')
         = map (\<lambda>r. (Some (ANum (js_sub (barOriginX s')
                          (linear_apply (leftBarWidth s') (Num (left r))))),
                       Some (ANum (linear_apply (leftBarWidth s') (Num (left r))))))
             (rows cd)
     \<and> map (\<lambda>e. (attrs e ''x'', attrs e ''width'')) (selectAll ''rect'' ''right-bar'' v')
         = map (\<lambda>r. (Some (ANum (barOriginX s')),
                       Some (ANum (linear_apply (rightBarWidth s') (Num (right r))))))
             (rows cd))"
proof
  assume "validateInputs qr \<and> sceneInv s \<and> createChartData data config = Inr cd"
  then have a: "validateInputs qr" "sceneInv s" "createChartData data config = Inr cd"
    by simp_all
  from cycle_labels [OF a, of b el] show "\<exists>s' v'. updateAsync b s data el config qr = Inr (s', 1) \<and> svg s' = Some v'
     \<and> map (\<lambda>e. (attrs e ''text-anchor'', attrs e ''x'')) (selectAll ''text'' ''left-value'' v')
         = map (\<lambda>r. (Some (AStr ''end''),
                       Some (ANum (js_sub (js_sub (barOriginX s')
                          (linear_apply (leftBarWidth s') (Num (left r)))) (Num 5)))))
             (rows cd)
     \<and> map (\<lambda>e. (attrs e ''text-anchor'', attrs e ''x'')) (selectAll ''text'' ''right-value'' v')
         = map (\<lambda>r. (None,
                       Some (ANum (js_add (js_add (barOriginX s')
                          (linear_apply (rightBarWidth s') (Num (right r)))) (Num 5)))))
             (rows cd)
     \<and> map (\<lambda>e. (attrs e ''x'', attrs e ''width'')) (selectAll ''rect'' ''left-bar'' v')
         = map (\<lambda>r. (Some (ANum (js_sub (barOriginX s')
                          (linear_apply (leftBarWidth s') (Num (left r))))),
                       Some (ANum (linear_apply (leftBarWidth s') (Num (left r))))))
             (rows cd)
     \<and> map (\<lambda>e. (attrs e ''x'', attrs e ''width'')) (selectAll ''rect'' ''right-bar'' v')
         = map (\<lambda>r. (Some (ANum (barOriginX s')),
                       Some (ANum (linear_apply (rightBarWidth s') (Num (right r))))))
             (rows cd)"
    by blast
qed

lemma sample_probe: "maxBarValueWidth sampleBrowser sampleRows = Num 12"
  by (simp add: maxBarValueWidth_def maxTextLength_def sampleBrowser_def sampleRows_def
      dummyText_def createElement_def attr_def setClass_def setText_def sampleLength_def
      rowLeftSelector_def rowRightSelector_def digits.simps)

lemma sample_max: "maxOfBoth sampleRows = Num 30"
  by (simp add: maxOfBoth_def sampleRows_def rowLeftSelector_def rowRightSelector_def)

text \<open>
  C4 as stated fails: in the sample chart the bar origin is at 405, and the left
  value labels end at \<open>1025 / 3\<close> and at 227, not at 400.
\<close>

theorem value_labels_counterexample:
  "selectAttr ''text'' ''left-value'' ''x''
     (stateOf (updateAsync sampleBrowser (create vis) sampleData sampleElement sampleConfig
        sampleResponse))
     = [Some (ANum (Num (1025 / 3))), Some (ANum (Num 227))]
   \<and> barOriginX (stateOf (updateAsync sampleBrowser (create vis) sampleData sampleElement
        sampleConfig sampleResponse)) = Num 405"
proof -
  from cycle_labels [OF sample_valid sceneInv_create sample_chart, where b = sampleBrowser and el = sampleElement]
  obtain s' v' where c: "updateAsync sampleBrowser (create vis) sampleData sampleElement
      sampleConfig sampleResponse = Inr (s', 1)" "svg s' = Some v'"
    "width s' = Num (real (clientWidth sampleElement))"
    "maxBarLabelWidth s' = maxBarValueWidth sampleBrowser (rows sampleChart)"
    "lin_domain (leftBarWidth s') = (Num 0, maxOfBoth (rows sampleChart))"
    "lin_range (leftBarWidth s') = (Num 1, halfGraphBarMaxWidth s')"
    "map (\<lambda>e. (attrs e ''text-anchor'', attrs e ''x'')) (selectAll ''text'' ''left-value'' v')
         = map (\<lambda>r. (Some (AStr ''end''),
                       Some (ANum (js_sub (js_sub (barOriginX s')
                          (linear_apply (leftBarWidth s') (Num (left r)))) (Num 5)))))
             (rows sampleChart)"
    by blast
  have w: "width s' = Num 600" "maxBarLabelWidth s' = Num 12"
    using c(3,4) by (simp_all add: sampleElement_def sampleChart_def sample_probe)
  have o: "barOriginX s' = Num 405" and h: "halfGraphBarMaxWidth s' = Num 173"
    by (simp_all add: barOriginX_def halfGraphBarMaxWidth_def halfGraphWidth_def graphWidth_def w)
  have sc: "linear_apply (leftBarWidth s') (Num 10) = Num (175 / 3)"
    "linear_apply (leftBarWidth s') (Num 30) = Num 173"
    by (simp_all add: linear_apply_def c(5,6) h sampleChart_def sample_max deinterpolateLinear_def
        interpolateNumber_def)
  have "map (\<lambda>e. attrs e ''x'') (selectAll ''text'' ''left-value'' v')
      = map snd (map (\<lambda>e. (attrs e ''text-anchor'', attrs e ''x''))
          (selectAll ''text'' ''left-value'' v'))"
    by (simp add: o_def)
  also have "\<dots> = [Some (ANum (Num (1025 / 3))), Some (ANum (Num 227))]"
    unfolding c(7) by (simp add: sampleChart_def sampleRows_def o sc)
  finally show ?thesis
    by (simp add: c(1,2) selectAttr_def o)
qed

theorem value_labels_witness:
  "validateInputs sampleResponse \<and> sceneInv (create vis)
   \<and> createChartData sampleData sampleConfig = Inr sampleChart
   \<and> updateAsync sampleBrowser (create vis) sampleData sampleElement sampleConfig sampleResponse
       = Inr (stateOf (updateAsync sampleBrowser (create vis) sampleData sampleElement
                sampleConfig sampleResponse), 1)"
  using value_labels [of sampleResponse "create vis" sampleData sampleConfig sampleChart
      sampleBrowser sampleElement] sample_valid sceneInv_create sample_chart
  by auto

lemma maxOfBoth_zero:
  assumes "rs \<noteq> []" "\<forall>r\<in>set rs. left r = 0 \<and> right r = 0"
  shows "maxOfBoth rs = Num 0"
proof -
  have "left ` set rs = {0}" "right ` set rs = {0}"
    using assms by (cases rs; force)+
  then show ?thesis
    using assms(1) by (simp add: maxOfBoth_nonempty)
qed

lemma linear_apply_collapsed:
  "lin_domain sc = (Num 0, Num 0) \<Longrightarrow> lin_range sc = (Num 1, Num r) \<Longrightarrow>
   linear_apply sc x = Num 1"
  by (simp add: linear_apply_def deinterpolateLinear_def interpolateNumber_def)

lemma linear_apply_NaN:
  "lin_domain sc = (Num 0, NaN) \<Longrightarrow> lin_range sc = (Num 1, r) \<Longrightarrow> linear_apply sc x = NaN"
  by (cases r) (simp_all add: linear_apply_def deinterpolateLinear_def interpolateNumber_def)

lemma halfGraphBarMaxWidth_Num:
  "width s = Num w \<Longrightarrow> maxBarLabelWidth s = Num l \<Longrightarrow>
   halfGraphBarMaxWidth s = Num (w * (65 / 100) / 2 - (l + 10))"
  by (simp add: halfGraphBarMaxWidth_def halfGraphWidth_def graphWidth_def)

text \<open>
  C5. When there is a row and every left and right value is 0, the upper end of
  the domain is 0, both value scales map every input to 1, the start of their
  range, and the cycle completes with every bar 1 pixel wide.
\<close>

theorem zero_values_hairline:
  "validateInputs qr \<and> sceneInv s \<and> createChartData data config = Inr cd
   \<and> rows cd \<noteq> [] \<and> (\<forall>r\<in>set (rows cd). left r = 0 \<and> right r = 0) \<longrightarrow>
   (\<exists>s' v'. updateAsync b s data el config qr = Inr (s', 1) \<and> svg s' = Some v'
     \<and> maxOfBoth (rows cd) = Num 0
     \<and> lin_domain (leftBarWidth s') = (Num 0, Num 0)
     \<and> lin_domain (rightBarWidth s') = (Num 0, Num 0)
     \<and> (\<forall>x. linear_apply (leftBarWidth s') x = Num 1
            \<and> linear_apply (rightBarWidth s') x = Num 1)
     \<and> map (\<lambda>e. attrs e ''width'') (selectAll ''rect'' ''left-bar'' v')
         = map (\<lambda>r. Some (ANum (Num 1))) (rows cd)
     \<and> map (\<lambda>e. attrs e ''width'') (selectAll ''rect'' ''right-bar'' v')
         = map (\<lambda>r. Some (ANum (Num 1))) (rows cd))"
proof
  assume "validateInputs qr \<and> sceneInv s \<and> createChartData data config = Inr cd
   \<and> rows cd \<noteq> [] \<and> (\<forall>r\<in>set (rows cd). left r = 0 \<and> right r = 0)"
  then have a: "validateInputs qr" "sceneInv s" "createChartData data config = Inr cd"
    and z: "rows cd \<noteq> []" "\<forall>r\<in>set (rows cd). left r = 0 \<and> right r = 0"
    by simp_all
  have m: "maxOfBoth (rows cd) = Num 0"
    by (rule maxOfBoth_zero [OF z])
  from cycle_labels [OF a, of b el]
  obtain s' v' w where c: "updateAsync b s data el config qr = Inr (s', 1)" "svg s' = Some v'"
    "width s' = Num (real (clientWidth el))" "maxBarLabelWidth s' = Num w"
    "lin_domain (leftBarWidth s') = (Num 0, maxOfBoth (rows cd))"
    "lin_range (leftBarWidth s') = (Num 1, halfGraphBarMaxWidth s')"
    "lin_domain (rightBarWidth s') = (Num 0, maxOfBoth (rows cd))"
    "lin_range (rightBarWidth s') = (Num 1, halfGraphBarMaxWidth s')"
    "map (\<lambda>e. (attrs e ''x'', attrs e ''width'')) (selectAll ''rect'' ''left-bar'' v')
         = map (\<lambda>r. (Some (ANum (js_sub (barOriginX s')
                          (linear_apply (leftBarWidth s') (Num (left r))))),
                       Some (ANum (linear_apply (leftBarWidth s') (Num (left r))))))
             (rows cd)"
    "map (\<lambda>e. (attrs e ''x'', attrs e ''width'')) (selectAll ''rect'' ''right-bar'' v')
         = map (\<lambda>r. (Some (ANum (barOriginX s')),
                       Some (ANum (linear_apply (rightBarWidth s') (Num (right r))))))
             (rows cd)"
    by blast
  note h = halfGraphBarMaxWidth_Num [OF c(3,4)]
  have one: "linear_apply (leftBarWidth s') x = Num 1" "linear_apply (rightBarWidth s') x = Num 1"
    for x
    using c(5,6,7,8) by (simp_all add: linear_apply_collapsed m h)
  have "map (\<lambda>e. attrs e ''width'') (selectAll ''rect'' ''left-bar'' v')
      = map snd (map (\<lambda>e. (attrs e ''x'', attrs e ''width'')) (selectAll ''rect'' ''left-bar'' v'))"
    by (simp add: o_def)
  then have lb: "map (\<lambda>e. attrs e ''width'') (selectAll ''rect'' ''left-bar'' v')
      = map (\<lambda>r. Some (ANum (Num 1))) (rows cd)"
    unfolding c(9) by (simp add: o_def one)
  have "map (\<lambda>e. attrs e ''width'') (selectAll ''rect'' ''right-bar'' v')
      = map snd (map (\<lambda>e. (attrs e ''x'', attrs e ''width'')) (selectAll ''rect'' ''right-bar'' v'))"
    by (simp add: o_def)
  then have rb: "map (\<lambda>e. attrs e ''width'') (selectAll ''rect'' ''right-bar'' v')
      = map (\<lambda>r. Some (ANum (Num 1))) (rows cd)"
    unfolding c(10) by (simp add: o_def one)
  from c(1,2) m c(5,7) one lb rb
  show "\<exists>s' v'. updateAsync b s data el config qr = Inr (s', 1) \<and> svg s' = Some v'
     \<and> maxOfBoth (rows cd) = Num 0
     \<and> lin_domain (leftBarWidth s') = (Num 0, Num 0)
     \<and> lin_domain (rightBarWidth s') = (Num 0, Num 0)
     \<and> (\<forall>x. linear_apply (leftBarWidth s') x = Num 1
            \<and> linear_apply (rightBarWidth s') x = Num 1)
     \<and> map (\<lambda>e. attrs e ''width'') (selectAll ''rect'' ''left-bar'' v')
         = map (\<lambda>r. Some (ANum (Num 1))) (rows cd)
     \<and> map (\<lambda>e. attrs e ''width'') (selectAll ''rect'' ''right-bar'' v')
         = map (\<lambda>r. Some (ANum (Num 1))) (rows cd)"
    by (intro exI [of _ s'] exI [of _ v']) simp
qed

lemma zero_chart: "createChartData zeroData sampleConfig = Inr zeroChart"
  by (simp add: createChartData_def zeroData_def sampleConfig_def zeroChart_def chartRow_def
      lit_def)

theorem zero_values_hairline_witness:
  "validateInputs sampleResponse \<and> sceneInv (create vis)
   \<and> createChartData zeroData sampleConfig = Inr zeroChart \<and> rows zeroChart \<noteq> []
   \<and> selectAttr ''rect'' ''left-bar'' ''width''
        (stateOf (updateAsync sampleBrowser (create vis) zeroData sampleElement sampleConfig
           sampleResponse)) = [Some (ANum (Num 1))]
   \<and> selectAttr ''rect'' ''right-bar'' ''width''
        (stateOf (updateAsync sampleBrowser (create vis) zeroData sampleElement sampleConfig
           sampleResponse)) = [Some (ANum (Num 1))]"
proof -
  have z: "rows zeroChart \<noteq> []" "\<forall>r\<in>set (rows zeroChart). left r = 0 \<and> right r = 0"
    by (simp_all add: zeroChart_def)
  from zero_values_hairline [of sampleResponse "create vis" zeroData sampleConfig zeroChart
      sampleBrowser sampleElement] sample_valid sceneInv_create zero_chart z
  obtain s' v' where "updateAsync sampleBrowser (create vis) zeroData sampleElement sampleConfig
      sampleResponse = Inr (s', 1)" "svg s' = Some v'"
    "map (\<lambda>e. attrs e ''width'') (selectAll ''rect'' ''left-bar'' v')
         = map (\<lambda>r. Some (ANum (Num 1))) (rows zeroChart)"
    "map (\<lambda>e. attrs e ''width'') (selectAll ''rect'' ''right-bar'' v')
         = map (\<lambda>r. Some (ANum (Num 1))) (rows zeroChart)"
    by blast
  with sample_valid sceneInv_create zero_chart z(1) show ?thesis
    by (simp add: selectAttr_def zeroChart_def)
qed

lemma createChartData_empty:
  assumes "dimensions (query_fields config) \<noteq> []" "2 \<le> length (measures (query_fields config))"
  shows "\<exists>cd. createChartData [] config = Inr cd \<and> rows cd = []"
proof -
  from assms(1) obtain d ds where d: "dimensions (query_fields config) = d # ds"
    by (cases "dimensions (query_fields config)") auto
  from assms(2) obtain m1 m2 ms where m: "measures (query_fields config) = m1 # m2 # ms"
    by (cases "measures (query_fields config)"; cases "tl (measures (query_fields config))") auto
  show ?thesis
    by (simp add: createChartData_def d m)
qed

lemma empty_cycle:
  assumes "validateInputs qr" "sceneInv s" "dimensions (query_fields config) \<noteq> []"
    "2 \<le> length (measures (query_fields config))"
  shows "\<exists>s' v'. updateAsync b s [] el config qr = Inr (s', 1) \<and> svg s' = Some v'
     \<and> selectAll ''g'' ''chart-row'' v' = []
     \<and> lin_domain (leftBarWidth s') = (Num 0, NaN)
     \<and> lin_domain (rightBarWidth s') = (Num 0, NaN)
     \<and> (\<forall>x. linear_apply (leftBarWidth s') x = NaN \<and> linear_apply (rightBarWidth s') x = NaN)
     \<and> band_domain (rowYPosition s') = []
     \<and> rowHeight s' = Num \<bar>real (clientHeight el) - 15\<bar>"
proof -
  from createChartData_empty [OF assms(3,4)]
  obtain cd where cd: "createChartData [] config = Inr cd" "rows cd = []" by blast
  from update_cycle [OF assms(2,1) cd(1), of b el]
  obtain s' v' where c: "updateAsync b s [] el config qr = Inr (s', 1)" "svg s' = Some v'"
    "leftBarWidth s' = \<lparr>lin_domain = (Num 0, maxOfBoth (rows cd)),
                            lin_range = (Num 1, halfGraphBarMaxWidth s')\<rparr>"
    "rightBarWidth s' = \<lparr>lin_domain = (Num 0, maxOfBoth (rows cd)),
                             lin_range = (Num 1, halfGraphBarMaxWidth s')\<rparr>"
    "rowYPosition s' = (rowYPosition s)
           \<lparr>band_domain := sequence (length (rows cd)),
            band_range := (Num 15, Num (real (clientHeight el))),
            band_paddingInner := 7 / 10, band_paddingOuter := 7 / 20\<rparr>"
    "length (selectAll ''g'' ''chart-row'' v') = length (rows cd)"
    by blast
  have d: "lin_domain (leftBarWidth s') = (Num 0, NaN)" "lin_domain (rightBarWidth s') = (Num 0, NaN)"
    "lin_range (leftBarWidth s') = (Num 1, halfGraphBarMaxWidth s')"
    "lin_range (rightBarWidth s') = (Num 1, halfGraphBarMaxWidth s')"
    by (simp_all add: c(3,4) cd(2) maxOfBoth_empty)
  have n: "linear_apply (leftBarWidth s') x = NaN \<and> linear_apply (rightBarWidth s') x = NaN" for x
    using linear_apply_NaN [OF d(1,3)] linear_apply_NaN [OF d(2,4)] by simp
  have bd: "band_domain (rowYPosition s') = []"
    by (simp add: c(5) cd(2) sequence_def)
  have rh: "rowHeight s' = Num \<bar>real (clientHeight el) - 15\<bar>"
    by (simp add: rowHeight_def step_def c(5) cd(2) sequence_def band_stop_def band_start_def
        band_reverse_def)
  from c(6) have "selectAll ''g'' ''chart-row'' v' = []"
    by (simp add: cd(2))
  with c(1,2) d(1,2) n bd rh show ?thesis by blast
qed

lemma createChartData_missing:
  assumes "dimensions (query_fields config) = [] \<or> length (measures (query_fields config)) < 2"
  shows "createChartData data config = Inl TypeError"
proof -
  from assms have "nth_opt (dimensions (query_fields config)) 0 = None
      \<or> nth_opt (measures (query_fields config)) 0 = None
      \<or> nth_opt (measures (query_fields config)) 1 = None"
    by (cases "dimensions (query_fields config)"; cases "measures (query_fields config)";
        cases "tl (measures (query_fields config))") auto
  then show ?thesis
    by (auto simp: createChartData_def split: option.splits)
qed

lemma missing_cycle:
  assumes "validateInputs qr" "sceneInv s"
    "dimensions (query_fields config) = [] \<or> length (measures (query_fields config)) < 2"
  shows "updateAsync b s data el config qr = Inl TypeError"
proof -
  from assms(2) obtain v where "svg s = Some v"
    by (auto simp: sceneInv_def split: option.splits)
  with assms(1) createChartData_missing [OF assms(3), of data] show ?thesis
    by (simp add: updateAsync_def Let_def andThen_def)
qed

text \<open>
  C8 (amended). Take a data set with no rows whose query metadata pass the
  validation. The validation reads the query response, while the chart data are
  built from the query fields of the configuration, which it does not check. When
  the configuration names a dimension and two measures, the cycle completes
  without an exception and calls the callback, and the scene has no row group;
  the value scales do not go to the start of their range: the upper end of their
  domain is \<open>NaN\<close> and they map every value to \<open>NaN\<close>, which no element shows; the
  row scale has an empty domain and its step is the whole range. When the
  configuration names no dimension or fewer than two measures, the cycle throws a
  \<open>TypeError\<close>, with no rows as with any.
\<close>

theorem zero_rows_cycle:
  "validateInputs qr \<and> sceneInv s \<longrightarrow>
   (if dimensions (query_fields config) \<noteq> [] \<and> 2 \<le> length (measures (query_fields config))
    then (\<exists>s' v'. updateAsync b s [] el config qr = Inr (s', 1) \<and> svg s' = Some v'
       \<and> selectAll ''g'' ''chart-row'' v' = []
       \<and> lin_domain (leftBarWidth s') = (Num 0, NaN)
       \<and> lin_domain (rightBarWidth s') = (Num 0, NaN)
       \<and> (\<forall>x. linear_apply (leftBarWidth s') x = NaN
              \<and> linear_apply (rightBarWidth s') x = NaN)
       \<and> band_domain (rowYPosition s') = []
       \<and> rowHeight s' = Num \<bar>real (clientHeight el) - 15\<bar>)
    else updateAsync b s [] el config qr = Inl TypeError)"
proof (intro impI)
  assume "validateInputs qr \<and> sceneInv s"
  then have a: "validateInputs qr" "sceneInv s"
    by simp_all
  show "if dimensions (query_fields config) \<noteq> [] \<and> 2 \<le> length (measures (query_fields config))
    then (\<exists>s' v'. updateAsync b s [] el config qr = Inr (s', 1) \<and> svg s' = Some v'
       \<and> selectAll ''g'' ''chart-row'' v' = []
       \<and> lin_domain (leftBarWidth s') = (Num 0, NaN)
       \<and> lin_domain (rightBarWidth s') = (Num 0, NaN)
       \<and> (\<forall>x. linear_apply (leftBarWidth s') x = NaN
              \<and> linear_apply (rightBarWidth s') x = NaN)
       \<and> band_domain (rowYPosition s') = []
       \<and> rowHeight s' = Num \<bar>real (clientHeight el) - 15\<bar>)
    else updateAsync b s [] el config qr = Inl TypeError"
  proof (cases "dimensions (query_fields config) \<noteq> []
      \<and> 2 \<le> length (measures (query_fields config))")
    case True
    then have "dimensions (query_fields config) \<noteq> []"
      "2 \<le> length (measures (query_fields config))"
      by simp_all
    from empty_cycle [OF a this, of b el] show ?thesis
      unfolding if_P [OF True] .
  next
    case False
    then have "dimensions (query_fields config) = []
        \<or> length (measures (query_fields config)) < 2"
      by auto
    from missing_cycle [OF a this, of b "[]" el] show ?thesis
      unfolding if_not_P [OF False] .
  qed
qed

lemma sample_config: "dimensions (query_fields sampleConfig) \<noteq> []"
  "2 \<le> length (measures (query_fields sampleConfig))"
  by (simp_all add: sampleConfig_def)

theorem zero_rows_cycle_witness:
  "validateInputs sampleResponse \<and> sceneInv (create vis)
   \<and> dimensions (query_fields sampleConfig) \<noteq> []
   \<and> 2 \<le> length (measures (query_fields sampleConfig))
   \<and> updateAsync sampleBrowser (create vis) [] sampleElement sampleConfig sampleResponse
       = Inr (stateOf (updateAsync sampleBrowser (create vis) [] sampleElement sampleConfig
                sampleResponse), 1)
   \<and> selectAttr ''g'' ''chart-row'' ''fill''
       (stateOf (updateAsync sampleBrowser (create vis) [] sampleElement sampleConfig
          sampleResponse)) = []
   \<and> length (measures (query_fields oneMeasure)) = 1
   \<and> updateAsync sampleBrowser (create vis) [] sampleElement oneMeasure sampleResponse
       = Inl TypeError"
  using zero_rows_cycle [of sampleResponse "create vis" sampleConfig sampleBrowser sampleElement]
    zero_rows_cycle [of sampleResponse "create vis" oneMeasure sampleBrowser sampleElement]
    sample_valid sceneInv_create sample_config
  by (auto simp: selectAttr_def oneMeasure_def)

text \<open>
  C8 as stated fails: after a cycle with no rows in the sample container the left
  value scale has the range \<open>[1, 185]\<close> and maps 0 to \<open>NaN\<close>, not to 1.
\<close>

theorem zero_rows_counterexample:
  "lin_domain (leftBarWidth (stateOf (updateAsync sampleBrowser (create vis) [] sampleElement
      sampleConfig sampleResponse))) = (Num 0, NaN)
   \<and> linear_apply (leftBarWidth (stateOf (updateAsync sampleBrowser (create vis) [] sampleElement
      sampleConfig sampleResponse))) (Num 0) = NaN
   \<and> lin_range (leftBarWidth (stateOf (updateAsync sampleBrowser (create vis) [] sampleElement
      sampleConfig sampleResponse))) = (Num 1, Num 185)"
proof -
  from update_cycle [OF sceneInv_create [of vis] sample_valid, where b = sampleBrowser
      and el = sampleElement and data = "[]" and config = sampleConfig
      and cd = "\<lparr>rows = [], leftTitle = lit ''Sold'', rightTitle = lit ''Returned''\<rparr>"]
  obtain s' where c: "updateAsync sampleBrowser (create vis) [] sampleElement sampleConfig
      sampleResponse = Inr (s', 1)"
    "width s' = Num (real (clientWidth sampleElement))"
    "maxBarLabelWidth s' = maxBarValueWidth sampleBrowser []"
    "leftBarWidth s' = \<lparr>lin_domain = (Num 0, maxOfBoth []),
                            lin_range = (Num 1, halfGraphBarMaxWidth s')\<rparr>"
    by (auto simp: createChartData_def sampleConfig_def)
  have "halfGraphBarMaxWidth s' = Num 185"
    by (simp add: halfGraphBarMaxWidth_def halfGraphWidth_def graphWidth_def c(2,3)
        sampleElement_def maxBarValueWidth_def maxTextLength_def)
  then show ?thesis
    by (simp add: c(1,4) maxOfBoth_empty linear_apply_def deinterpolateLinear_def
        interpolateNumber_def)
qed

lemma updates_scene:
  assumes "sceneInv s" "svg s = Some v" "list_all successful cs"
  shows "\<exists>s' v'. updates b s cs = Inr s' \<and> sceneInv s' \<and> svg s' = Some v'
     \<and> length (selectAll ''text'' ''left-title'' v')
          = length (selectAll ''text'' ''left-title'' v) + length cs
     \<and> length (selectAll ''text'' ''right-title'' v')
          = length (selectAll ''text'' ''right-title'' v) + length cs
     \<and> (cs \<noteq> [] \<longrightarrow>
          map datum (selectAll ''g'' ''chart-row'' v') = map Some (rows (chartOf (last cs))))"
  using assms
proof (induction cs arbitrary: s v)
  case Nil
  then show ?case by simp
next
  case (Cons c cs)
  from Cons.prems(3) have "successful c" and rest: "list_all successful cs"
    by simp_all
  then have ok: "validateInputs (call_response c)"
    "createChartData (call_data c) (call_config c) = Inr (chartOf c)"
    by (auto simp: successful_def chartOf_def)
  from update_cycle [OF Cons.prems(1) ok, of b "call_element c"] Cons.prems(2)
  obtain s1 v1 where c: "updateAsync b s (call_data c) (call_element c) (call_config c)
      (call_response c) = Inr (s1, 1)" "sceneInv s1" "svg s1 = Some v1"
    "filter isRowGroup (root_kids v1)
           = map (\<lambda>(i, d). sizedRow b s1 (i - nextId s) (renderedRow b (call_config c) i d))
               (enumerate (nextId s) (rows (chartOf c)))"
    "length (selectAll ''text'' ''left-title'' v1)
           = Suc (length (selectAll ''text'' ''left-title'' v))"
    "length (selectAll ''text'' ''right-title'' v1)
           = Suc (length (selectAll ''text'' ''right-title'' v))"
    by auto
  have groups: "map datum (selectAll ''g'' ''chart-row'' v1) = map Some (rows (chartOf c))"
    by (rule select_sized(5) [OF c(2,3,4)])
  from Cons.IH [OF c(2,3) rest]
  obtain s' v' where r: "updates b s1 cs = Inr s'" "sceneInv s'" "svg s' = Some v'"
    "length (selectAll ''text'' ''left-title'' v')
          = length (selectAll ''text'' ''left-title'' v1) + length cs"
    "length (selectAll ''text'' ''right-title'' v')
          = length (selectAll ''text'' ''right-title'' v1) + length cs"
    "cs \<noteq> [] \<longrightarrow>
          map datum (selectAll ''g'' ''chart-row'' v') = map Some (rows (chartOf (last cs)))"
    by blast
  have run: "updates b s (c # cs) = Inr s'"
    by (simp add: c(1) r(1))
  have last: "map datum (selectAll ''g'' ''chart-row'' v')
      = map Some (rows (chartOf (last (c # cs))))"
  proof (cases "cs = []")
    case True
    with r(1,3) c(3) have "v' = v1" by simp
    with True groups show ?thesis by simp
  next
    case False
    with r(6) show ?thesis by simp
  qed
  from run r(2,3) r(4,5) c(5,6) last show ?case
    by (intro exI [of _ s'] exI [of _ v']) simp
qed

text \<open>
  C10. After \<open>n\<close> successful calls of \<open>updateAsync\<close> on a chart that was just
  created, the scene holds \<open>n\<close> left titles and \<open>n\<close> right titles, \<open>2 * n\<close> titles in
  all, and, when \<open>n > 0\<close>, exactly one row group for each row of the last call, in
  the order of the rows: the row groups of the cycles before are gone.
\<close>

theorem titles_accumulate:
  "list_all successful cs \<longrightarrow>
   (\<exists>s' v'. updates b (create this) cs = Inr s' \<and> svg s' = Some v'
      \<and> length (selectAll ''text'' ''left-title'' v') = length cs
      \<and> length (selectAll ''text'' ''right-title'' v') = length cs
      \<and> length (selectAll ''text'' ''left-title'' v')
          + length (selectAll ''text'' ''right-title'' v') = 2 * length cs
      \<and> (cs \<noteq> [] \<longrightarrow>
           map datum (selectAll ''g'' ''chart-row'' v') = map Some (rows (chartOf (last cs)))
           \<and> length (selectAll ''g'' ''chart-row'' v') = length (rows (chartOf (last cs)))))"
proof
  assume a: "list_all successful cs"
  have v: "svg (create this) = Some \<lparr>root_attrs = Map.empty, root_kids = []\<rparr>"
    by (simp add: create_def)
  from updates_scene [OF sceneInv_create v a, of b]
  obtain s' v' where r: "updates b (create this) cs = Inr s'" "svg s' = Some v'"
    "length (selectAll ''text'' ''left-title'' v') = length cs"
    "length (selectAll ''text'' ''right-title'' v') = length cs"
    "cs \<noteq> [] \<longrightarrow>
          map datum (selectAll ''g'' ''chart-row'' v') = map Some (rows (chartOf (last cs)))"
    by (auto simp: selectAll_def)
  have "length (selectAll ''g'' ''chart-row'' v') = length (rows (chartOf (last cs)))"
    if "cs \<noteq> []"
    using r(5) that map_eq_imp_length_eq [of datum "selectAll ''g'' ''chart-row'' v'" Some
        "rows (chartOf (last cs))"] by simp
  with r show "\<exists>s' v'. updates b (create this) cs = Inr s' \<and> svg s' = Some v'
      \<and> length (selectAll ''text'' ''left-title'' v') = length cs
      \<and> length (selectAll ''text'' ''right-title'' v') = length cs
      \<and> length (selectAll ''text'' ''left-title'' v')
          + length (selectAll ''text'' ''right-title'' v') = 2 * length cs
      \<and> (cs \<noteq> [] \<longrightarrow>
           map datum (selectAll ''g'' ''chart-row'' v') = map Some (rows (chartOf (last cs)))
           \<and> length (selectAll ''g'' ''chart-row'' v') = length (rows (chartOf (last cs))))"
    by (intro exI [of _ s'] exI [of _ v']) simp
qed

lemma sample_calls: "list_all successful sampleCalls"
proof -
  have "successful \<lparr>call_data = sampleData, call_element = sampleElement,
      call_config = sampleConfig, call_response = sampleResponse\<rparr>"
    by (simp add: successful_def sample_valid sample_chart)
  moreover have "successful \<lparr>call_data = [],
      call_element = \<lparr>clientWidth = 300, clientHeight = 200\<rparr>,
      call_config = sampleConfig, call_response = sampleResponse\<rparr>"
    by (simp add: successful_def sample_valid createChartData_def sampleConfig_def)
  ultimately show ?thesis
    by (simp add: sampleCalls_def)
qed

theorem titles_accumulate_witness:
  "list_all successful sampleCalls
   \<and> updates sampleBrowser (create vis) sampleCalls
       = Inr (projr (updates sampleBrowser (create vis) sampleCalls))
   \<and> length (selectAttr ''text'' ''left-title'' ''dy''
        (projr (updates sampleBrowser (create vis) sampleCalls))) = 2
   \<and> selectAttr ''g'' ''chart-row'' ''fill''
        (projr (updates sampleBrowser (create vis) sampleCalls)) = []"
proof -
  from titles_accumulate [of sampleCalls sampleBrowser vis] sample_calls
  obtain s' v' where r: "updates sampleBrowser (create vis) sampleCalls = Inr s'"
    "svg s' = Some v'" "length (selectAll ''text'' ''left-title'' v') = length sampleCalls"
    "map datum (selectAll ''g'' ''chart-row'' v') = map Some (rows (chartOf (last sampleCalls)))"
    by (auto simp: sampleCalls_def)
  have "rows (chartOf (last sampleCalls)) = []"
    by (simp add: sampleCalls_def chartOf_def createChartData_def sampleConfig_def)
  with r(4) have g: "selectAll ''g'' ''chart-row'' v' = []" by simp
  from r(3) have "length (selectAll ''text'' ''left-title'' v') = 2"
    by (simp add: sampleCalls_def)
  then show ?thesis
    by (simp add: r(1,2) sample_calls selectAttr_def g)
qed

end
